theory Spec2Isabelle
  imports Main
begin

section \<open>JavaScript strings\<close>

text \<open>
  A JavaScript string is a sequence of UTF-16 code units, and \<open>sql.length\<close> counts
  code units. A code unit is modelled by its numeric value; ASCII literals are written
  through \<open>js\<close>, the messages of \<^verbatim>\<open>src/index.ts\<close> that are not ASCII are
  listed by their code units.
\<close>

type_synonym jsstring = "nat list"

definition js :: "string \<Rightarrow> jsstring" where
  "js s = map of_char s"

text \<open>
  The white space of ECMAScript (WhiteSpace and LineTerminator): the code units that
  \<open>String.prototype.trim\<close> strips and that the class \<^verbatim>\<open>\s\<close> of a regular
  expression matches.
\<close>

definition is_whitespace :: "nat \<Rightarrow> bool" where
  "is_whitespace c \<longleftrightarrow>
     (9 \<le> c \<and> c \<le> 13) \<or> c = 32 \<or> c = 160 \<or> c = 5760 \<or> (8192 \<le> c \<and> c \<le> 8202) \<or>
     c = 8232 \<or> c = 8233 \<or> c = 8239 \<or> c = 8287 \<or> c = 12288 \<or> c = 65279"

definition trim :: "jsstring \<Rightarrow> jsstring" where
  "trim s = rev (dropWhile is_whitespace (rev (dropWhile is_whitespace s)))"

text \<open>
  \<open>s.split(' ')[0]\<close>: the part of the string before its first space (U+0020); the whole
  string when it has no space, the empty string when it is empty.
\<close>

definition first_token :: "jsstring \<Rightarrow> jsstring" where
  "first_token s = takeWhile (\<lambda>c. c \<noteq> 32) s"

text \<open>
  \<open>String.prototype.toUpperCase\<close> maps every code point to its full Unicode upper-case
  mapping and concatenates the results. The table below holds the ASCII and Latin-1
  letters and every other code unit whose mapping contains an ASCII unit (for instance
  U+017F, the long s, becomes \<open>S\<close>). The remaining code units are left as they are: Unicode
  sends them to code units outside ASCII only, so that the comparison of an upper-cased
  string with an ASCII keyword is the one JavaScript makes. Only the value of a log label
  made of such letters differs: it keeps them as they were written.
\<close>

definition upper_unit :: "nat \<Rightarrow> jsstring" where
  "upper_unit c =
     (if 97 \<le> c \<and> c \<le> 122 then [c - 32]
      else if c = 181 then [924]
      else if c = 223 then [83, 83]
      else if 224 \<le> c \<and> c \<le> 254 \<and> c \<noteq> 247 then [c - 32]
      else if c = 255 then [376]
      else if c = 305 then [73]
      else if c = 329 then [700, 78]
      else if c = 383 then [83]
      else if c = 496 then [74, 780]
      else if c = 7830 then [72, 817]
      else if c = 7831 then [84, 776]
      else if c = 7832 then [87, 778]
      else if c = 7833 then [89, 778]
      else if c = 7834 then [65, 702]
      else if c = 64256 then [70, 70]
      else if c = 64257 then [70, 73]
      else if c = 64258 then [70, 76]
      else if c = 64259 then [70, 70, 73]
      else if c = 64260 then [70, 70, 76]
      else if c = 64261 then [83, 84]
      else if c = 64262 then [83, 84]
      else [c])"

definition toUpperCase :: "jsstring \<Rightarrow> jsstring" where
  "toUpperCase s = concat (map upper_unit s)"

section \<open>The regular expressions of the SQL guard\<close>

text \<open>
  The eight patterns of \<open>checkSQLSecurity\<close> are sequences of single characters and of the
  class \<^verbatim>\<open>\s\<close>, each taken once, \<^verbatim>\<open>*\<close> or \<^verbatim>\<open>+\<close> times, under the flag
  \<^verbatim>\<open>i\<close>. A pattern is a list of such items.
\<close>

datatype atom = Chr nat | Space

datatype quant = Once | Star | Plus

type_synonym regex = "(atom \<times> quant) list"

text \<open>
  Under the flag \<^verbatim>\<open>i\<close> (without \<^verbatim>\<open>u\<close>) two code units match when their
  canonical forms are equal. The canonical form of an ASCII letter is its capital; a code
  unit outside ASCII never has an ASCII canonical form, and the patterns hold ASCII
  characters only, so such a unit is left as it is.
\<close>

definition canonicalize :: "nat \<Rightarrow> nat" where
  "canonicalize c = (if 97 \<le> c \<and> c \<le> 122 then c - 32 else c)"

fun atom_match :: "atom \<Rightarrow> nat \<Rightarrow> bool" where
  "atom_match (Chr p) c = (canonicalize c = canonicalize p)"
| "atom_match Space c = is_whitespace c"

text \<open>Does the pattern match a prefix of the string? (A backtracking matcher.)\<close>

fun match_here :: "regex \<Rightarrow> jsstring \<Rightarrow> bool" where
  "match_here [] s = True"
| "match_here ((a, Once) # r) [] = False"
| "match_here ((a, Once) # r) (c # s) = (atom_match a c \<and> match_here r s)"
| "match_here ((a, Star) # r) [] = match_here r []"
| "match_here ((a, Star) # r) (c # s) =
     ((atom_match a c \<and> match_here ((a, Star) # r) s) \<or> match_here r (c # s))"
| "match_here ((a, Plus) # r) [] = False"
| "match_here ((a, Plus) # r) (c # s) = (atom_match a c \<and> match_here ((a, Star) # r) s)"

text \<open>\<open>pattern.test(sql)\<close>: the pattern matches somewhere in the string.\<close>

fun regex_test :: "regex \<Rightarrow> jsstring \<Rightarrow> bool" where
  "regex_test r [] = match_here r []"
| "regex_test r (c # s) = (match_here r (c # s) \<or> regex_test r s)"

text \<open>The words a pattern denotes, as a set: the reference the matcher is checked against.\<close>

fun item_lang :: "atom \<Rightarrow> quant \<Rightarrow> jsstring set" where
  "item_lang a Once = {[c] | c. atom_match a c}"
| "item_lang a Star = {u. \<forall>c \<in> set u. atom_match a c}"
| "item_lang a Plus = {u. u \<noteq> [] \<and> (\<forall>c \<in> set u. atom_match a c)}"

fun lang :: "regex \<Rightarrow> jsstring set" where
  "lang [] = {[]}"
| "lang ((a, q) # r) = {u @ v | u v. u \<in> item_lang a q \<and> v \<in> lang r}"

definition occurs_in :: "regex \<Rightarrow> jsstring \<Rightarrow> bool" where
  "occurs_in r s \<longleftrightarrow> (\<exists>pre u post. s = pre @ u @ post \<and> u \<in> lang r)"

text \<open>Does a prefix of the string belong to the words of the pattern?\<close>

definition prefix_in :: "regex \<Rightarrow> jsstring \<Rightarrow> bool" where
  "prefix_in r s \<longleftrightarrow> (\<exists>u v. s = u @ v \<and> u \<in> lang r)"

definition lit :: "string \<Rightarrow> regex" where
  "lit s = map (\<lambda>c. (Chr (of_char c), Once)) s"

definition dangerousPatterns :: "regex list" where
  "dangerousPatterns =
    [lit '';'' @ [(Space, Star)] @ lit ''DROP'' @ [(Space, Plus)],
     lit '';'' @ [(Space, Star)] @ lit ''DELETE'' @ [(Space, Plus)] @ lit ''FROM'' @ [(Space, Plus)],
     lit '';'' @ [(Space, Star)] @ lit ''UPDATE'' @ [(Space, Plus)],
     lit '';'' @ [(Space, Star)] @ lit ''INSERT'' @ [(Space, Plus)],
     lit ''EXECUTE'' @ [(Space, Plus)],
     lit ''EXEC'' @ [(Space, Plus)],
     lit ''INTO'' @ [(Space, Plus)] @ lit ''OUTFILE'',
     lit ''INTO'' @ [(Space, Plus)] @ lit ''DUMPFILE'']"

section \<open>The SQL guard\<close>

record SQLSecurityCheck =
  safe :: bool
  reason :: "jsstring option"

definition maxQueryLength :: nat where
  "maxQueryLength = 4096"

definition limit_message :: jsstring where
  "limit_message =
     js ''SQL '' @ [26597, 35426, 38263, 24230, 36229, 36942, 38480, 21046] @ js '' (4096 '' @
     [23383, 20803] @ js '')''"

definition injection_message :: jsstring where
  "injection_message =
     [27298, 28204, 21040, 28507, 22312, 30340] @ js '' SQL '' @ [27880, 20837, 25915, 25802]"

definition checkQueryLimits :: "jsstring \<Rightarrow> SQLSecurityCheck" where
  "checkQueryLimits sql =
     (if length sql > maxQueryLength then \<lparr>safe = False, reason = Some limit_message\<rparr>
      else \<lparr>safe = True, reason = None\<rparr>)"

text \<open>The loop over the patterns, leaving at the first one that matches.\<close>

fun check_patterns :: "regex list \<Rightarrow> jsstring \<Rightarrow> SQLSecurityCheck" where
  "check_patterns [] sql = \<lparr>safe = True, reason = None\<rparr>"
| "check_patterns (p # ps) sql =
     (if regex_test p sql then \<lparr>safe = False, reason = Some injection_message\<rparr>
      else check_patterns ps sql)"

definition checkSQLSecurity :: "jsstring \<Rightarrow> SQLSecurityCheck" where
  "checkSQLSecurity sql = check_patterns dangerousPatterns sql"

section \<open>Values, failures and the query log\<close>

text \<open>
  A bind parameter or a cell of a result row: \<open>undefined\<close>, \<open>null\<close>, a string, or any
  other value (a number, a date, a buffer), kept opaque.
\<close>

datatype jsvalue = Undefined | Null | Str jsstring | Opaque nat

text \<open>What a rejected promise or a \<open>throw\<close> carries: an \<open>Error\<close> with its message, or any other value.\<close>

datatype thrown = Error jsstring | NonError

type_synonym row = "(jsstring \<times> jsvalue) list"

text \<open>
  The result the driver hands to the callback of \<open>connection.query\<close>: an array of rows for a
  statement that reads, a packet with \<open>affectedRows\<close>, \<open>insertId\<close> and \<open>message\<close> for one that
  writes.
\<close>

datatype dbresult = Rows "row list" | OkPacket nat nat jsstring

fun result_affectedRows :: "dbresult \<Rightarrow> nat option" where
  "result_affectedRows (Rows rs) = None"
| "result_affectedRows (OkPacket a i m) = Some a"

fun result_insertId :: "dbresult \<Rightarrow> nat option" where
  "result_insertId (Rows rs) = None"
| "result_insertId (OkPacket a i m) = Some i"

fun result_message :: "dbresult \<Rightarrow> jsstring option" where
  "result_message (Rows rs) = None"
| "result_message (OkPacket a i m) = Some m"

record SQLExecuteResult =
  success :: bool
  affectedRows :: "nat option"
  insertId :: "nat option"
  message :: "jsstring option"

text \<open>
  The log entry. \<open>log_operation\<close> is a string: the source casts the upper-cased first token
  to \<open>SQLOperationType\<close> without checking it. \<open>log_duration\<close> is the elapsed time in
  nanoseconds, which the source prints in milliseconds.
\<close>

record QueryLog =
  log_timestamp :: nat
  log_operation :: jsstring
  log_sql :: jsstring
  log_params :: "jsvalue list"
  log_duration :: nat
  log_success :: bool
  log_error :: "jsstring option"
  log_affectedRows :: "nat option"

section \<open>The pool, the connection and the clock\<close>

text \<open>
  Everything a call does to the pool, to the borrowed connection and to the log is an
  event, appended to the trace in the order the code does it. \<open>Acquire\<close> is a connection
  handed out by the pool, \<open>Release\<close> is \<open>connection.release()\<close>; the other events are the
  commands sent over the connection, with what the driver answered, and the log entries.
\<close>

datatype event =
    Acquire
  | Release
  | Query jsstring "jsvalue list" "thrown + dbresult"
  | Begin "thrown option"
  | Commit "thrown option"
  | Rollback
  | Log QueryLog

type_synonym trace = "event list"

text \<open>
  The driver, the database behind it and the platform are not part of the repository:
  they are a parameter. Each answer may depend on everything that happened before.
  \<open>drv_commit\<close> is what the server answers to \<open>COMMIT\<close>.
  \<open>url_href\<close> is \<open>new URL(path, base).href\<close> and \<open>url_pathname\<close> is
  \<open>new URL(uri).pathname\<close>; \<open>opaque_string\<close> is the string a template literal makes of an
  opaque value.
\<close>

record driver =
  drv_getConnection :: "trace \<Rightarrow> thrown option"
  drv_query :: "trace \<Rightarrow> jsstring \<Rightarrow> jsvalue list \<Rightarrow> thrown + dbresult"
  drv_beginTransaction :: "trace \<Rightarrow> thrown option"
  drv_commit :: "trace \<Rightarrow> thrown option"
  elapsed :: "trace \<Rightarrow> trace \<Rightarrow> nat"
  now :: "trace \<Rightarrow> nat"
  url_href :: "jsstring \<Rightarrow> jsstring \<Rightarrow> thrown + jsstring"
  url_pathname :: "jsstring \<Rightarrow> thrown + jsstring"
  opaque_string :: "nat \<Rightarrow> jsstring"

text \<open>
  An asynchronous function: from the trace so far to its outcome (\<open>Inl\<close> what it throws,
  \<open>Inr\<close> what it returns) and the trace after it.
\<close>

type_synonym 'a prog = "trace \<Rightarrow> (thrown + 'a) \<times> trace"

definition andThen :: "'a prog \<Rightarrow> ('a \<Rightarrow> 'b prog) \<Rightarrow> 'b prog" where
  "andThen m f tr = (case m tr of (Inl e, tr1) \<Rightarrow> (Inl e, tr1) | (Inr x, tr1) \<Rightarrow> f x tr1)"

definition executeQueryWithConnection :: "driver \<Rightarrow> jsstring \<Rightarrow> jsvalue list \<Rightarrow> dbresult prog" where
  "executeQueryWithConnection d sql params tr =
     (let answer = drv_query d tr sql params in (answer, tr @ [Query sql params answer]))"

definition getConnectionFromPool :: "driver \<Rightarrow> unit prog" where
  "getConnectionFromPool d tr =
     (case drv_getConnection d tr of
        Some e \<Rightarrow> (Inl e, tr)
      | None \<Rightarrow> (Inr (), tr @ [Acquire]))"

definition startTransaction :: "driver \<Rightarrow> unit prog" where
  "startTransaction d tr =
     (case drv_beginTransaction d tr of
        Some e \<Rightarrow> (Inl e, tr @ [Begin (Some e)])
      | None \<Rightarrow> (Inr (), tr @ [Begin None]))"

text \<open>\<open>rollbackTransaction\<close> resolves whatever the callback receives: it never throws.\<close>

definition rollbackTransaction :: "unit prog" where
  "rollbackTransaction tr = (Inr (), tr @ [Rollback])"

text \<open>
  \<open>await connection.commit()\<close>. The source calls the method of the driver directly,
  with no callback and without a promise of its own around it (unlike
  \<open>startTransaction\<close> and \<open>rollbackTransaction\<close>). The method sends \<open>COMMIT\<close> and returns
  an object that is not a promise, so the \<open>await\<close> continues at once and never throws:
  the event records what the server answers, and the program never sees it.
\<close>

definition commitTransaction :: "driver \<Rightarrow> unit prog" where
  "commitTransaction d tr = (Inr (), tr @ [Commit (drv_commit d tr)])"

definition release :: "trace \<Rightarrow> trace" where
  "release tr = tr @ [Release]"

section \<open>Instrumentation\<close>

definition unknown_error :: jsstring where
  "unknown_error = [26410, 30693, 37679, 35492]"

text \<open>\<open>error instanceof Error ? error.message : unknown_error\<close>\<close>

fun error_message :: "thrown \<Rightarrow> jsstring" where
  "error_message (Error m) = m"
| "error_message NonError = unknown_error"

definition logQuery :: "QueryLog \<Rightarrow> trace \<Rightarrow> trace" where
  "logQuery entry tr = tr @ [Log entry]"

text \<open>
  \<open>withPerformanceMonitoring\<close>. The argument \<open>affected\<close> reads the property
  \<open>affectedRows\<close> of the action's result, which the source reaches through \<open>any\<close>.
\<close>

definition withPerformanceMonitoring ::
  "driver \<Rightarrow> ('a \<Rightarrow> nat option) \<Rightarrow> jsstring \<Rightarrow> jsstring \<Rightarrow> jsvalue list \<Rightarrow> 'a prog \<Rightarrow> 'a prog" where
  "withPerformanceMonitoring d affected operation sql params action tr =
     (case action tr of
        (Inr result, tr1) \<Rightarrow>
          (Inr result,
           logQuery \<lparr>log_timestamp = now d tr1, log_operation = operation, log_sql = sql,
                     log_params = params, log_duration = elapsed d tr tr1, log_success = True,
                     log_error = None, log_affectedRows = affected result\<rparr> tr1)
      | (Inl error, tr1) \<Rightarrow>
          (Inl error,
           logQuery \<lparr>log_timestamp = now d tr1, log_operation = operation, log_sql = sql,
                     log_params = params, log_duration = elapsed d tr tr1, log_success = False,
                     log_error = Some (error_message error), log_affectedRows = None\<rparr> tr1))"

section \<open>The executors\<close>

text \<open>The action \<open>executeModifyQuery\<close> hands to the instrumentation.\<close>

definition modify_action :: "driver \<Rightarrow> jsstring \<Rightarrow> jsvalue list \<Rightarrow> SQLExecuteResult prog" where
  "modify_action d sql params =
     andThen (startTransaction d) (\<lambda>_.
     andThen (executeQueryWithConnection d sql params) (\<lambda>result.
     andThen (commitTransaction d) (\<lambda>_ tr.
       (Inr \<lparr>success = True, affectedRows = result_affectedRows result,
              insertId = result_insertId result, message = result_message result\<rparr>, tr))))"

definition executeModifyQuery :: "driver \<Rightarrow> jsstring \<Rightarrow> jsvalue list \<Rightarrow> SQLExecuteResult prog" where
  "executeModifyQuery d sql params =
     andThen (getConnectionFromPool d) (\<lambda>_ tr.
       let securityCheck = checkSQLSecurity sql in
       if \<not> safe securityCheck
       then (Inr \<lparr>success = False, affectedRows = None, insertId = None,
                   message = reason securityCheck\<rparr>, tr)
       else
         let sqlType = toUpperCase (first_token (trim sql)) in
         (case withPerformanceMonitoring d affectedRows sqlType sql params
                 (modify_action d sql params) tr of
            (Inr r, tr1) \<Rightarrow> (Inr r, release tr1)
          | (Inl error, tr1) \<Rightarrow>
              (Inr \<lparr>success = False, affectedRows = None, insertId = None,
                     message = Some (error_message error)\<rparr>,
               release (snd (rollbackTransaction tr1)))))"

text \<open>
  The response envelope. \<open>payload\<close> is the value whose \<open>JSON.stringify\<close> is the text of the
  content block; the serialisation itself is not modelled.
\<close>

datatype payload = ResultSet dbresult | ExecResult SQLExecuteResult

record envelope =
  payload :: payload
  isError :: bool

definition SELECT :: jsstring where
  "SELECT = js ''SELECT''"

definition SET_READ_ONLY :: jsstring where
  "SET_READ_ONLY = js ''SET SESSION TRANSACTION READ ONLY''"

definition SET_READ_WRITE :: jsstring where
  "SET_READ_WRITE = js ''SET SESSION TRANSACTION READ WRITE''"

text \<open>The action \<open>executeReadOnlyQuery\<close> hands to the instrumentation.\<close>

definition readonly_action :: "driver \<Rightarrow> jsstring \<Rightarrow> envelope prog" where
  "readonly_action d sql =
     andThen (executeQueryWithConnection d SET_READ_ONLY []) (\<lambda>_.
     andThen (startTransaction d) (\<lambda>_.
     andThen (executeQueryWithConnection d sql []) (\<lambda>results.
     andThen rollbackTransaction (\<lambda>_.
     andThen (executeQueryWithConnection d SET_READ_WRITE []) (\<lambda>_ tr.
       (Inr \<lparr>payload = ResultSet results, isError = False\<rparr>, tr))))))"

definition executeReadOnlyQuery :: "driver \<Rightarrow> jsstring \<Rightarrow> envelope prog" where
  "executeReadOnlyQuery d sql =
     andThen (getConnectionFromPool d) (\<lambda>_ tr.
       let securityCheck = checkSQLSecurity sql in
       if \<not> safe securityCheck
       then (Inl (Error (case reason securityCheck of Some m \<Rightarrow> m | None \<Rightarrow> [])), tr)
       else
         (case withPerformanceMonitoring d (\<lambda>_. None) SELECT sql [] (readonly_action d sql) tr of
            (Inr r, tr1) \<Rightarrow> (Inr r, release tr1)
          | (Inl error, tr1) \<Rightarrow> (Inl error, release (snd (rollbackTransaction tr1)))))"

definition executeQuery :: "driver \<Rightarrow> jsstring \<Rightarrow> jsvalue list \<Rightarrow> dbresult prog" where
  "executeQuery d sql params =
     andThen (getConnectionFromPool d) (\<lambda>_ tr.
       let securityCheck = checkSQLSecurity sql in
       if \<not> safe securityCheck
       then (Inl (Error (case reason securityCheck of Some m \<Rightarrow> m | None \<Rightarrow> [])), tr)
       else
         let limitsCheck = checkQueryLimits sql in
         if \<not> safe limitsCheck
         then (Inl (Error (case reason limitsCheck of Some m \<Rightarrow> m | None \<Rightarrow> [])), tr)
         else
           (case withPerformanceMonitoring d result_affectedRows SELECT sql params
                   (executeQueryWithConnection d sql params) tr of
              (r, tr1) \<Rightarrow> (r, release tr1)))"

section \<open>The request dispatcher\<close>

text \<open>
  A tool call, with the arguments its input schema declares. \<open>params\<close> and \<open>table\<close> may
  be absent.
\<close>

datatype tool_call =
    mysql_query jsstring
  | mysql_execute jsstring "jsvalue list option"
  | list_tables
  | describe_table "jsstring option"
  | unknown_tool jsstring

definition usage_message :: jsstring where
  "usage_message =
     [35531, 20351, 29992] @ js '' mysql_query '' @ [22519, 34892, 26597, 35426, 25805, 20316]"

definition unknown_tool_message :: "jsstring \<Rightarrow> jsstring" where
  "unknown_tool_message name = [26410, 30693, 30340, 24037, 20855] @ js '': '' @ name"

definition TABLES_QUERY :: jsstring where
  "TABLES_QUERY =
     js ''SELECT table_name FROM information_schema.tables WHERE table_schema = DATABASE()''"

definition COLUMN_METADATA_QUERY :: jsstring where
  "COLUMN_METADATA_QUERY =
     js ''SELECT column_name, data_type FROM information_schema.columns '' @
     js ''WHERE table_schema = DATABASE() AND table_name = ?''"

definition callTool :: "driver \<Rightarrow> tool_call \<Rightarrow> envelope prog" where
  "callTool d call =
     (case call of
        mysql_query sql \<Rightarrow> executeReadOnlyQuery d sql
      | mysql_execute sql args_params \<Rightarrow>
          (let params = (case args_params of Some ps \<Rightarrow> ps | None \<Rightarrow> []);
               sqlType = toUpperCase (first_token (trim sql))
           in if sqlType = SELECT then (\<lambda>tr. (Inl (Error usage_message), tr))
              else andThen (executeModifyQuery d sql params) (\<lambda>result tr.
                     (Inr \<lparr>payload = ExecResult result, isError = \<not> success result\<rparr>, tr)))
      | list_tables \<Rightarrow>
          andThen (executeQuery d TABLES_QUERY []) (\<lambda>results tr.
            (Inr \<lparr>payload = ResultSet results, isError = False\<rparr>, tr))
      | describe_table args_table \<Rightarrow>
          (case args_table of
             None \<Rightarrow> (\<lambda>tr. (Inl (Error (js ''Table name is required'')), tr))
           | Some tableName \<Rightarrow>
               if tableName = [] then (\<lambda>tr. (Inl (Error (js ''Table name is required'')), tr))
               else andThen (executeQuery d COLUMN_METADATA_QUERY [Str tableName]) (\<lambda>results tr.
                      (Inr \<lparr>payload = ResultSet results, isError = False\<rparr>, tr)))
      | unknown_tool name \<Rightarrow> (\<lambda>tr. (Inl (Error (unknown_tool_message name)), tr)))"

section \<open>The resource handlers\<close>

record resource =
  uri :: jsstring
  mimeType :: jsstring
  name :: jsstring

record resource_contents =
  contents_uri :: jsstring
  contents_mimeType :: jsstring
  contents :: dbresult

text \<open>\<open>s.split(sep)\<close> for a separator of one code unit.\<close>

fun split_on :: "nat \<Rightarrow> jsstring \<Rightarrow> jsstring list" where
  "split_on sep [] = [[]]"
| "split_on sep (c # s) =
     (if c = sep then [] # split_on sep s
      else (case split_on sep s of [] \<Rightarrow> [[c]] | t # ts \<Rightarrow> (c # t) # ts))"

text \<open>The string a template literal makes of a value.\<close>

fun template_string :: "driver \<Rightarrow> jsvalue \<Rightarrow> jsstring" where
  "template_string d Undefined = js ''undefined''"
| "template_string d Null = js ''null''"
| "template_string d (Str s) = s"
| "template_string d (Opaque n) = opaque_string d n"

text \<open>\<open>row.table_name\<close>: the property of a row, \<open>undefined\<close> when the row has none.\<close>

definition property :: "row \<Rightarrow> jsstring \<Rightarrow> jsvalue" where
  "property r k = (case map_of r k of Some v \<Rightarrow> v | None \<Rightarrow> Undefined)"

text \<open>\<open>results.map(f)\<close>, where \<open>f\<close> may throw: the first failure ends the loop.\<close>

fun map_throwing :: "('a \<Rightarrow> thrown + 'b) \<Rightarrow> 'a list \<Rightarrow> thrown + 'b list" where
  "map_throwing f [] = Inr []"
| "map_throwing f (x # xs) =
     (case f x of
        Inl e \<Rightarrow> Inl e
      | Inr y \<Rightarrow> (case map_throwing f xs of Inl e \<Rightarrow> Inl e | Inr ys \<Rightarrow> Inr (y # ys)))"

text \<open>\<open>host_port\<close> is the base of the resource URIs, the host and the port of the configuration.\<close>

definition table_resource :: "driver \<Rightarrow> jsstring \<Rightarrow> row \<Rightarrow> thrown + resource" where
  "table_resource d host_port r =
     (let table_name = template_string d (property r (js ''table_name'')) in
      case url_href d (table_name @ js ''/schema'') host_port of
        Inl e \<Rightarrow> Inl e
      | Inr href \<Rightarrow>
          Inr \<lparr>uri = href, mimeType = js ''application/json'',
                name = [34] @ table_name @ [34] @ js '' database schema''\<rparr>)"

definition listResources :: "driver \<Rightarrow> jsstring \<Rightarrow> resource list prog" where
  "listResources d host_port =
     andThen (executeQuery d TABLES_QUERY []) (\<lambda>results tr.
       case results of
         Rows rs \<Rightarrow> (map_throwing (table_resource d host_port) rs, tr)
       | OkPacket a i m \<Rightarrow> (Inl (Error (js ''results.map is not a function'')), tr))"

definition readResource :: "driver \<Rightarrow> jsstring \<Rightarrow> resource_contents prog" where
  "readResource d request_uri tr =
     (case url_pathname d request_uri of
        Inl e \<Rightarrow> (Inl e, tr)
      | Inr pathname \<Rightarrow>
          let pathComponents = split_on 47 pathname;
              schema = last pathComponents;
              pathComponents1 = butlast pathComponents;
              tableName = (if pathComponents1 = [] then Undefined else Str (last pathComponents1))
          in if schema \<noteq> js ''schema'' then (Inl (Error (js ''Invalid resource URI'')), tr)
             else andThen (executeQuery d COLUMN_METADATA_QUERY [tableName]) (\<lambda>results tr1.
                    (Inr \<lparr>contents_uri = request_uri, contents_mimeType = js ''application/json'',
                           contents = results\<rparr>, tr1)) tr)"

section \<open>The database behind the driver\<close>

text \<open>
  A server holds several schemas; the connection has a current database, the value of
  \<open>DATABASE()\<close> (\<open>NULL\<close> when none is selected). \<open>tables\<close> are the rows
  \<open>(table_schema, table_name)\<close> of \<open>information_schema.tables\<close>, \<open>columns\<close> the rows
  \<open>(table_schema, table_name, column_name, data_type)\<close> of \<open>information_schema.columns\<close>.
\<close>

record server =
  current_database :: "jsstring option"
  tables :: "(jsstring \<times> jsstring) list"
  columns :: "(jsstring \<times> jsstring \<times> jsstring \<times> jsstring) list"

text \<open>
  The server answers a statement from its text. The text is cut into words (letters,
  digits, \<open>_\<close> and \<open>.\<close>) and the signs \<open>, = ? ( )\<close>, and read as a statement of the form
  \<^verbatim>\<open>SELECT column, ... FROM table WHERE column = DATABASE() AND column = ? ...\<close>,
  the \<open>WHERE\<close> part being optional and its conditions in any number and order; key words
  and names are read without regard to case. Any other text is not read here.
\<close>

datatype token = Word jsstring | Sym nat

definition is_word_char :: "nat \<Rightarrow> bool" where
  "is_word_char c \<longleftrightarrow>
     (48 \<le> c \<and> c \<le> 57) \<or> (65 \<le> c \<and> c \<le> 90) \<or> (97 \<le> c \<and> c \<le> 122) \<or> c = 95 \<or> c = 46"

definition is_symbol :: "nat \<Rightarrow> bool" where
  "is_symbol c \<longleftrightarrow> c = 44 \<or> c = 61 \<or> c = 63 \<or> c = 40 \<or> c = 41"

definition sql_space :: "nat \<Rightarrow> bool" where
  "sql_space c \<longleftrightarrow> (9 \<le> c \<and> c \<le> 13) \<or> c = 32"

definition flush :: "jsstring \<Rightarrow> token list \<Rightarrow> token list" where
  "flush acc ts = (if acc = [] then ts else Word (rev acc) # ts)"

fun scan :: "jsstring \<Rightarrow> jsstring \<Rightarrow> token list option" where
  "scan acc [] = Some (flush acc [])"
| "scan acc (c # s) =
     (if is_word_char c then scan (c # acc) s
      else if sql_space c then map_option (flush acc) (scan [] s)
      else if is_symbol c then map_option (\<lambda>ts. flush acc (Sym c # ts)) (scan [] s)
      else None)"

definition keyword :: "string \<Rightarrow> jsstring \<Rightarrow> bool" where
  "keyword k w \<longleftrightarrow> map canonicalize w = map canonicalize (js k)"

datatype operand = Database | Placeholder

record select_stmt =
  sel_columns :: "jsstring list"
  sel_table :: jsstring
  sel_conds :: "(jsstring \<times> operand) list"

fun parse_columns :: "token list \<Rightarrow> (jsstring list \<times> token list) option" where
  "parse_columns (Word c # Sym y # ts) =
     (if y = 44 then
        (case parse_columns ts of Some (cs, r) \<Rightarrow> Some (c # cs, r) | None \<Rightarrow> None)
      else None)"
| "parse_columns (Word c # ts) = Some ([c], ts)"
| "parse_columns ts = None"

fun parse_conds :: "token list \<Rightarrow> (jsstring \<times> operand) list option"
  and more_conds :: "token list \<Rightarrow> (jsstring \<times> operand) list option" where
  "parse_conds (Word c # Sym e # Sym q # ts) =
     (if e = 61 \<and> q = 63 then map_option (Cons (c, Placeholder)) (more_conds ts) else None)"
| "parse_conds (Word c # Sym e # Word f # Sym l # Sym r # ts) =
     (if e = 61 \<and> keyword ''DATABASE'' f \<and> l = 40 \<and> r = 41
      then map_option (Cons (c, Database)) (more_conds ts) else None)"
| "parse_conds ts = None"
| "more_conds [] = Some []"
| "more_conds (Word a # ts) = (if keyword ''AND'' a then parse_conds ts else None)"
| "more_conds ts = None"

definition parse_select :: "token list \<Rightarrow> select_stmt option" where
  "parse_select ts =
     (case ts of
        Word s # ts1 \<Rightarrow>
          if keyword ''SELECT'' s then
            (case parse_columns ts1 of
               Some (cols, Word f # Word tbl # ts2) \<Rightarrow>
                 if keyword ''FROM'' f then
                   (case ts2 of
                      [] \<Rightarrow> Some \<lparr>sel_columns = cols, sel_table = tbl, sel_conds = []\<rparr>
                    | Word w # ts3 \<Rightarrow>
                        if keyword ''WHERE'' w then
                          map_option (\<lambda>cs. \<lparr>sel_columns = cols, sel_table = tbl, sel_conds = cs\<rparr>)
                            (parse_conds ts3)
                        else None
                    | _ \<Rightarrow> None)
                 else None
             | _ \<Rightarrow> None)
          else None
      | _ \<Rightarrow> None)"

text \<open>
  Running the statement: the rows of the catalogue table it names, those that satisfy
  every condition of its \<open>WHERE\<close> part, cut down to the columns it selects. \<open>DATABASE()\<close>
  is the current database, a \<open>?\<close> is the next bind value; a comparison holds between equal
  strings only, never with \<open>NULL\<close>. Nothing is answered here for an unknown table or
  column, or for a \<open>?\<close> without a bind value.
\<close>

definition catalogue :: "server \<Rightarrow> jsstring \<Rightarrow> (jsstring list \<times> row list) option" where
  "catalogue srv tbl =
     (if keyword ''information_schema.tables'' tbl then
        Some ([js ''table_schema'', js ''table_name''],
              map (\<lambda>(s, t). [(js ''table_schema'', Str s), (js ''table_name'', Str t)]) (tables srv))
      else if keyword ''information_schema.columns'' tbl then
        Some ([js ''table_schema'', js ''table_name'', js ''column_name'', js ''data_type''],
              map (\<lambda>(s, t, c, ty). [(js ''table_schema'', Str s), (js ''table_name'', Str t),
                                      (js ''column_name'', Str c), (js ''data_type'', Str ty)])
                (columns srv))
      else None)"

definition column_value :: "row \<Rightarrow> jsstring \<Rightarrow> jsvalue" where
  "column_value r c =
     (case map_of (map (\<lambda>(k, v). (map canonicalize k, v)) r) (map canonicalize c) of
        Some v \<Rightarrow> v | None \<Rightarrow> Null)"

fun sql_equal :: "jsvalue \<Rightarrow> jsvalue \<Rightarrow> bool" where
  "sql_equal (Str a) (Str b) = (a = b)"
| "sql_equal v w = False"

fun bind_operands ::
  "server \<Rightarrow> (jsstring \<times> operand) list \<Rightarrow> jsvalue list \<Rightarrow> (jsstring \<times> jsvalue) list option" where
  "bind_operands srv [] ps = Some []"
| "bind_operands srv ((c, Database) # cs) ps =
     map_option (Cons (c, case current_database srv of Some db \<Rightarrow> Str db | None \<Rightarrow> Null))
       (bind_operands srv cs ps)"
| "bind_operands srv ((c, Placeholder) # cs) [] = None"
| "bind_operands srv ((c, Placeholder) # cs) (p # ps) =
     map_option (Cons (c, p)) (bind_operands srv cs ps)"

definition row_satisfies :: "(jsstring \<times> jsvalue) list \<Rightarrow> row \<Rightarrow> bool" where
  "row_satisfies bs r = list_all (\<lambda>(c, v). sql_equal (column_value r c) v) bs"

definition project :: "jsstring list \<Rightarrow> row \<Rightarrow> row" where
  "project cols r = map (\<lambda>c. (c, column_value r c)) cols"

definition known_column :: "jsstring list \<Rightarrow> jsstring \<Rightarrow> bool" where
  "known_column names c \<longleftrightarrow> map canonicalize c \<in> set (map (map canonicalize) names)"

definition run_select :: "server \<Rightarrow> jsstring \<Rightarrow> jsvalue list \<Rightarrow> row list option" where
  "run_select srv sql params =
     (case scan [] sql of
        None \<Rightarrow> None
      | Some ts \<Rightarrow>
         (case parse_select ts of
            None \<Rightarrow> None
          | Some st \<Rightarrow>
             (case catalogue srv (sel_table st) of
                None \<Rightarrow> None
              | Some (names, rows) \<Rightarrow>
                  if \<not> list_all (known_column names) (sel_columns st @ map fst (sel_conds st))
                  then None
                  else
                    (case bind_operands srv (sel_conds st) params of
                       None \<Rightarrow> None
                     | Some bs \<Rightarrow>
                         Some (map (project (sel_columns st)) (filter (row_satisfies bs) rows))))))"

text \<open>
  A driver connected to such a server: when a statement of the form above runs and does not
  fail, its answer is the rows the statement selects. Everything else is left to \<open>d\<close>.
\<close>

definition connected_to :: "server \<Rightarrow> driver \<Rightarrow> driver" where
  "connected_to srv d =
     d\<lparr>drv_query := (\<lambda>tr sql params.
          case drv_query d tr sql params of
            Inl e \<Rightarrow> Inl e
          | Inr r \<Rightarrow>
              (case run_select srv sql params of
                 Some rows \<Rightarrow> Inr (Rows rows)
               | None \<Rightarrow> Inr r))\<rparr>"

text \<open>
  What claim C3 expects of the catalogue operations: the names of the tables whose schema
  is the current database, and the columns of the table of that name in the current
  database.
\<close>

definition tables_rows :: "server \<Rightarrow> row list" where
  "tables_rows srv =
     map (\<lambda>(s, t). [(js ''table_name'', Str t)])
       (filter (\<lambda>(s, t). current_database srv = Some s) (tables srv))"

definition columns_rows :: "server \<Rightarrow> jsvalue \<Rightarrow> row list" where
  "columns_rows srv p =
     map (\<lambda>(s, t, c, ty). [(js ''column_name'', Str c), (js ''data_type'', Str ty)])
       (filter (\<lambda>(s, t, c, ty). current_database srv = Some s \<and> p = Str t) (columns srv))"

section \<open>Reading a trace\<close>

text \<open>The events a call adds to the trace.\<close>

definition issued :: "'a prog \<Rightarrow> trace \<Rightarrow> trace" where
  "issued m tr = drop (length tr) (snd (m tr))"

text \<open>The commands sent over the connection, among the events.\<close>

fun is_command :: "event \<Rightarrow> bool" where
  "is_command Acquire = False"
| "is_command Release = False"
| "is_command (Log entry) = False"
| "is_command e = True"

fun is_log :: "event \<Rightarrow> bool" where
  "is_log (Log entry) = True"
| "is_log e = False"

text \<open>A command the driver answered with the failure \<open>e\<close>.\<close>

fun failed_with :: "thrown \<Rightarrow> event \<Rightarrow> bool" where
  "failed_with e (Query sql params (Inl e')) = (e' = e)"
| "failed_with e (Begin (Some e')) = (e' = e)"
| "failed_with e (Commit (Some e')) = (e' = e)"
| "failed_with e ev = False"

text \<open>
  The state of the session of a connection: whether a transaction is open and whether the
  next transactions are read-only. A command that failed changes nothing; \<open>ROLLBACK\<close> and
  a successful \<open>COMMIT\<close> close the transaction; what any other statement does to the
  session is the parameter \<open>effect\<close>.
\<close>

record session =
  in_transaction :: bool
  read_only :: bool

fun session_step :: "(jsstring \<Rightarrow> session \<Rightarrow> session) \<Rightarrow> session \<Rightarrow> event \<Rightarrow> session" where
  "session_step effect s (Begin None) = s\<lparr>in_transaction := True\<rparr>"
| "session_step effect s (Commit None) = s\<lparr>in_transaction := False\<rparr>"
| "session_step effect s Rollback = s\<lparr>in_transaction := False\<rparr>"
| "session_step effect s (Query sql params (Inr r)) =
     (if sql = SET_READ_ONLY then s\<lparr>read_only := True\<rparr>
      else if sql = SET_READ_WRITE then s\<lparr>read_only := False\<rparr>
      else effect sql s)"
| "session_step effect s e = s"

definition session_after :: "(jsstring \<Rightarrow> session \<Rightarrow> session) \<Rightarrow> session \<Rightarrow> trace \<Rightarrow> session" where
  "session_after effect s tr = foldl (session_step effect) s tr"

section \<open>The leading keyword of a statement\<close>

text \<open>
  Following the words of the specification: the leading keyword of a statement is its
  first word, the code units after the leading white space and before the next white
  space; keywords are compared without regard to the case of ASCII letters.
\<close>

definition spec_leading_keyword :: "jsstring \<Rightarrow> jsstring" where
  "spec_leading_keyword s =
     map canonicalize (takeWhile (\<lambda>c. \<not> is_whitespace c) (dropWhile is_whitespace s))"

section \<open>Drivers, servers and statements for the examples\<close>

text \<open>
  The platform of the examples. \<open>new URL(uri).pathname\<close> is given for the URIs
  \<open>mysql://db/...\<close> whose path is made of letters, digits, \<open>_\<close> and \<open>/\<close>; this platform
  takes no other URI. \<open>new URL(path, base)\<close> throws for a base without a scheme, such as
  \<open>127.0.0.1:3306\<close>, and this platform is given no other base.
\<close>

definition path_char :: "nat \<Rightarrow> bool" where
  "path_char c \<longleftrightarrow>
     (48 \<le> c \<and> c \<le> 57) \<or> (65 \<le> c \<and> c \<le> 90) \<or> (97 \<le> c \<and> c \<le> 122) \<or> c = 95 \<or> c = 47"

definition example_pathname :: "jsstring \<Rightarrow> thrown + jsstring" where
  "example_pathname u =
     (let rest = drop 10 u
      in if take 10 u = js ''mysql://db'' \<and> rest \<noteq> [] \<and> hd rest = 47 \<and> list_all path_char rest
         then Inr rest else Inl (Error (js ''Invalid URL'')))"

text \<open>A driver and a database where nothing fails and every statement selects no row.\<close>

definition quiet_driver :: driver where
  "quiet_driver =
     \<lparr>drv_getConnection = (\<lambda>tr. None),
      drv_query = (\<lambda>tr sql params. Inr (Rows [])),
      drv_beginTransaction = (\<lambda>tr. None),
      drv_commit = (\<lambda>tr. None),
      elapsed = (\<lambda>tr tr1. 0),
      now = (\<lambda>tr. 0),
      url_href = (\<lambda>path base. Inl (Error (js ''Invalid URL''))),
      url_pathname = example_pathname,
      opaque_string = (\<lambda>n. [])\<rparr>"

text \<open>A database that refuses every statement, and one that writes a row.\<close>

definition failing_driver :: driver where
  "failing_driver = quiet_driver\<lparr>drv_query := (\<lambda>tr sql params. Inl (Error (js ''ER_DUP_ENTRY'')))\<rparr>"

definition writing_driver :: driver where
  "writing_driver = quiet_driver\<lparr>drv_query := (\<lambda>tr sql params. Inr (OkPacket 1 7 []))\<rparr>"

text \<open>A database that writes the row and then refuses the \<open>COMMIT\<close>.\<close>

definition commit_failing_driver :: driver where
  "commit_failing_driver =
     writing_driver\<lparr>drv_commit := (\<lambda>tr. Some (Error (js ''ER_LOCK_DEADLOCK'')))\<rparr>"

text \<open>A statement of 4097 code units without white space.\<close>

definition long_statement :: jsstring where
  "long_statement = js ''SELECT('' @ replicate 4089 48 @ js '')''"

text \<open>A server with two schemas; the connection is on \<open>shop\<close>.\<close>

definition example_server :: server where
  "example_server =
     \<lparr>current_database = Some (js ''shop''),
      tables = [(js ''shop'', js ''orders''), (js ''hr'', js ''salaries'')],
      columns = [(js ''shop'', js ''orders'', js ''id'', js ''int''),
                 (js ''hr'', js ''salaries'', js ''amount'', js ''decimal'')]\<rparr>"

text \<open>The same server, the connection being on a schema without tables.\<close>

definition archive_server :: server where
  "archive_server = example_server\<lparr>current_database := Some (js ''archive'')\<rparr>"

text \<open>
  Statements whose keyword \<open>SELECT\<close> is followed by a tab or by a line feed instead of a
  space.
\<close>

definition select_tab :: jsstring where
  "select_tab = js ''SELECT'' @ [9] @ js ''* FROM t''"

definition select_newline :: jsstring where
  "select_newline = js ''select'' @ [10] @ js ''1''"

section \<open>The matcher against the words of a pattern\<close>

lemma lang_Once: "u \<in> lang ((a, Once) # r) \<longleftrightarrow> (\<exists>c v. u = c # v \<and> atom_match a c \<and> v \<in> lang r)"
proof
  assume "u \<in> lang ((a, Once) # r)"
  then obtain w x where "u = w @ x" "w \<in> item_lang a Once" "x \<in> lang r" by auto
  then show "\<exists>c v. u = c # v \<and> atom_match a c \<and> v \<in> lang r" by auto
next
  assume "\<exists>c v. u = c # v \<and> atom_match a c \<and> v \<in> lang r"
  then obtain c v where "u = [c] @ v" "[c] \<in> item_lang a Once" "v \<in> lang r" by auto
  then show "u \<in> lang ((a, Once) # r)" unfolding lang.simps by blast
qed

lemma lang_Star: "u \<in> lang ((a, Star) # r) \<longleftrightarrow>
   u \<in> lang r \<or> (\<exists>c v. u = c # v \<and> atom_match a c \<and> v \<in> lang ((a, Star) # r))"
proof
  assume "u \<in> lang ((a, Star) # r)"
  then obtain w x where u: "u = w @ x" and w: "w \<in> item_lang a Star" and x: "x \<in> lang r"
    by auto
  show "u \<in> lang r \<or> (\<exists>c v. u = c # v \<and> atom_match a c \<and> v \<in> lang ((a, Star) # r))"
  proof (cases w)
    case Nil
    with u x show ?thesis by simp
  next
    case (Cons d w')
    with w have "w' \<in> item_lang a Star" and d: "atom_match a d" by auto
    with x have "w' @ x \<in> lang ((a, Star) # r)" unfolding lang.simps by blast
    with Cons u d show ?thesis by simp
  qed
next
  assume "u \<in> lang r \<or> (\<exists>c v. u = c # v \<and> atom_match a c \<and> v \<in> lang ((a, Star) # r))"
  then show "u \<in> lang ((a, Star) # r)"
  proof
    assume "u \<in> lang r"
    moreover have "[] \<in> item_lang a Star" by simp
    moreover have "u = [] @ u" by simp
    ultimately show ?thesis unfolding lang.simps by blast
  next
    assume "\<exists>c v. u = c # v \<and> atom_match a c \<and> v \<in> lang ((a, Star) # r)"
    then obtain c v where u: "u = c # v" and c: "atom_match a c" and v: "v \<in> lang ((a, Star) # r)"
      by blast
    from v obtain w x where v': "v = w @ x" and w: "w \<in> item_lang a Star" and x: "x \<in> lang r"
      by auto
    from c w have "c # w \<in> item_lang a Star" by simp
    moreover have "u = (c # w) @ x" using u v' by simp
    ultimately show ?thesis using x unfolding lang.simps by blast
  qed
qed

lemma lang_Plus: "u \<in> lang ((a, Plus) # r) \<longleftrightarrow>
   (\<exists>c v. u = c # v \<and> atom_match a c \<and> v \<in> lang ((a, Star) # r))"
proof
  assume "u \<in> lang ((a, Plus) # r)"
  then obtain w x where u: "u = w @ x" and w: "w \<in> item_lang a Plus" and x: "x \<in> lang r"
    by auto
  from w obtain d w' where Cons: "w = d # w'" by (cases w) auto
  with w have "w' \<in> item_lang a Star" and d: "atom_match a d" by auto
  with x have "w' @ x \<in> lang ((a, Star) # r)" unfolding lang.simps by blast
  with Cons u d show "\<exists>c v. u = c # v \<and> atom_match a c \<and> v \<in> lang ((a, Star) # r)" by simp
next
  assume "\<exists>c v. u = c # v \<and> atom_match a c \<and> v \<in> lang ((a, Star) # r)"
  then obtain c v where u: "u = c # v" and c: "atom_match a c" and v: "v \<in> lang ((a, Star) # r)"
    by blast
  from v obtain w x where v': "v = w @ x" and w: "w \<in> item_lang a Star" and x: "x \<in> lang r"
    by auto
  from c w have "c # w \<in> item_lang a Plus" by simp
  moreover have "u = (c # w) @ x" using u v' by simp
  ultimately show "u \<in> lang ((a, Plus) # r)" using x unfolding lang.simps by blast
qed

declare lang.simps(2) [simp del]

lemma prefix_in_Nil: "prefix_in [] s"
  by (simp add: prefix_in_def)

lemma prefix_in_empty: "prefix_in r [] \<longleftrightarrow> [] \<in> lang r"
  by (simp add: prefix_in_def)

lemma prefix_in_Cons:
  "prefix_in r (c # s) \<longleftrightarrow> [] \<in> lang r \<or> (\<exists>u. c # u \<in> lang r \<and> (\<exists>v. s = u @ v))"
  unfolding prefix_in_def by (auto simp: Cons_eq_append_conv)

lemma prefix_in_Once:
  "prefix_in ((a, Once) # r) (c # s) \<longleftrightarrow> atom_match a c \<and> prefix_in r s"
  by (auto simp: prefix_in_Cons lang_Once) (auto simp: prefix_in_def)

lemma prefix_in_Plus:
  "prefix_in ((a, Plus) # r) (c # s) \<longleftrightarrow> atom_match a c \<and> prefix_in ((a, Star) # r) s"
  by (auto simp: prefix_in_Cons lang_Plus) (auto simp: prefix_in_def)

lemma prefix_in_Star:
  "prefix_in ((a, Star) # r) (c # s) \<longleftrightarrow>
     (atom_match a c \<and> prefix_in ((a, Star) # r) s) \<or> prefix_in r (c # s)"
proof -
  have "prefix_in ((a, Star) # r) (c # s) \<longleftrightarrow>
        [] \<in> lang ((a, Star) # r) \<or> (\<exists>u. c # u \<in> lang ((a, Star) # r) \<and> (\<exists>v. s = u @ v))"
    by (rule prefix_in_Cons)
  also have "[] \<in> lang ((a, Star) # r) \<longleftrightarrow> [] \<in> lang r"
    by (subst lang_Star) simp
  also have "(\<exists>u. c # u \<in> lang ((a, Star) # r) \<and> (\<exists>v. s = u @ v)) \<longleftrightarrow>
             (\<exists>u. c # u \<in> lang r \<and> (\<exists>v. s = u @ v)) \<or>
             (atom_match a c \<and> prefix_in ((a, Star) # r) s)"
    by (subst lang_Star) (auto simp: prefix_in_def)
  finally show ?thesis by (auto simp: prefix_in_Cons)
qed

lemma match_here_lang: "match_here r s \<longleftrightarrow> prefix_in r s"
proof (induction r s rule: match_here.induct)
  case (1 s)
  show ?case by (simp add: prefix_in_Nil)
next
  case (2 a r)
  show ?case by (simp add: prefix_in_empty lang_Once)
next
  case (3 a r c s)
  then show ?case by (simp add: prefix_in_Once)
next
  case (4 a r)
  then show ?case by (simp add: prefix_in_empty lang_Star [of "[]"])
next
  case (5 a r c s)
  then show ?case by (simp add: prefix_in_Star)
next
  case (6 a r)
  show ?case by (simp add: prefix_in_empty lang_Plus)
next
  case (7 a r c s)
  then show ?case by (simp add: prefix_in_Plus)
qed

lemma occurs_in_Nil: "occurs_in r [] \<longleftrightarrow> prefix_in r []"
  by (simp add: occurs_in_def prefix_in_def)

lemma occurs_in_Cons: "occurs_in r (c # s) \<longleftrightarrow> prefix_in r (c # s) \<or> occurs_in r s"
proof
  assume "occurs_in r (c # s)"
  then obtain pre u post where eq: "c # s = pre @ u @ post" and u: "u \<in> lang r"
    by (auto simp: occurs_in_def)
  show "prefix_in r (c # s) \<or> occurs_in r s"
  proof (cases pre)
    case Nil
    with eq u have "prefix_in r (c # s)" unfolding prefix_in_def by auto
    then show ?thesis ..
  next
    case (Cons d pre')
    with eq have "s = pre' @ u @ post" by simp
    with u have "occurs_in r s" unfolding occurs_in_def by blast
    then show ?thesis ..
  qed
next
  assume "prefix_in r (c # s) \<or> occurs_in r s"
  then show "occurs_in r (c # s)"
  proof
    assume "prefix_in r (c # s)"
    then obtain u v where "c # s = [] @ u @ v" and "u \<in> lang r" by (auto simp: prefix_in_def)
    then show ?thesis unfolding occurs_in_def by blast
  next
    assume "occurs_in r s"
    then obtain pre u post where "s = pre @ u @ post" and u: "u \<in> lang r"
      by (auto simp: occurs_in_def)
    then have "c # s = (c # pre) @ u @ post" by simp
    with u show ?thesis unfolding occurs_in_def by blast
  qed
qed

lemma regex_test_occurs: "regex_test r s \<longleftrightarrow> occurs_in r s"
  by (induction s) (simp_all add: occurs_in_Nil occurs_in_Cons match_here_lang)

lemma check_patterns_eq:
  "check_patterns ps sql =
     (if \<exists>p \<in> set ps. regex_test p sql then \<lparr>safe = False, reason = Some injection_message\<rparr>
      else \<lparr>safe = True, reason = None\<rparr>)"
  by (induction ps) auto

section \<open>The guard on concrete statements\<close>

lemma stacked_drop_unsafe:
  "checkSQLSecurity (js ''SELECT 1; DROP TABLE x'') = \<lparr>safe = False, reason = Some injection_message\<rparr>"
  by (simp add: checkSQLSecurity_def js_def dangerousPatterns_def lit_def canonicalize_def
      is_whitespace_def)

lemma plain_select_safe:
  "checkSQLSecurity (js ''SELECT * FROM t'') = \<lparr>safe = True, reason = None\<rparr>"
  by (simp add: checkSQLSecurity_def js_def dangerousPatterns_def lit_def canonicalize_def
      is_whitespace_def)

lemma lang_whitespace:
  "u \<in> lang r \<Longrightarrow> (Space, Plus) \<in> set r \<Longrightarrow> \<exists>c \<in> set u. is_whitespace c"
proof (induction r arbitrary: u)
  case Nil
  then show ?case by simp
next
  case (Cons item r)
  obtain a q where item: "item = (a, q)" by (cases item)
  from Cons.prems(1) item obtain v w where u: "u = v @ w" and v: "v \<in> item_lang a q"
    and w: "w \<in> lang r"
    by (auto simp: lang.simps)
  show ?case
  proof (cases "item = (Space, Plus)")
    case True
    with item v obtain c where "c \<in> set v" "is_whitespace c" by (cases v) auto
    with u show ?thesis by auto
  next
    case False
    with Cons.prems(2) have "(Space, Plus) \<in> set r" by simp
    with Cons.IH w obtain c where "c \<in> set w" "is_whitespace c" by blast
    with u show ?thesis by auto
  qed
qed

lemma patterns_need_whitespace: "p \<in> set dangerousPatterns \<Longrightarrow> (Space, Plus) \<in> set p"
  by (auto simp: dangerousPatterns_def)

lemma no_whitespace_safe:
  assumes "\<forall>c \<in> set sql. \<not> is_whitespace c"
  shows "checkSQLSecurity sql = \<lparr>safe = True, reason = None\<rparr>"
proof -
  have "\<not> occurs_in p sql" if p: "p \<in> set dangerousPatterns" for p
  proof
    assume "occurs_in p sql"
    then obtain pre u post where sql: "sql = pre @ u @ post" and u: "u \<in> lang p"
      by (auto simp: occurs_in_def)
    from lang_whitespace [OF u patterns_need_whitespace [OF p]]
    obtain c where "c \<in> set u" "is_whitespace c" by blast
    with sql assms show False by auto
  qed
  then show ?thesis
    by (auto simp: checkSQLSecurity_def check_patterns_eq regex_test_occurs)
qed

lemma long_statement_length: "length long_statement = 4097"
  by (simp add: long_statement_def js_def)

lemma long_statement_safe: "checkSQLSecurity long_statement = \<lparr>safe = True, reason = None\<rparr>"
  by (rule no_whitespace_safe) (auto simp: long_statement_def js_def is_whitespace_def)

lemma long_statement_limits:
  "checkQueryLimits long_statement = \<lparr>safe = False, reason = Some limit_message\<rparr>"
  by (simp add: checkQueryLimits_def long_statement_length maxQueryLength_def)

section \<open>The patterns, word by word\<close>

text \<open>
  The words of a pattern are made of the words of its parts. A stacked \<open>DROP\<close> and an
  \<open>INTO OUTFILE\<close>, in any letter case and wherever they stand in the statement, are
  rejected.
\<close>

lemma lang_append: "lang (r1 @ r2) = {u @ v | u v. u \<in> lang r1 \<and> v \<in> lang r2}"
proof (induction r1)
  case Nil
  show ?case by simp
next
  case (Cons item r1)
  obtain a q where item: "item = (a, q)" by (cases item)
  show ?case
  proof (intro set_eqI iffI)
    fix w
    assume "w \<in> lang ((item # r1) @ r2)"
    then obtain x y where "w = x @ y" "x \<in> item_lang a q" "y \<in> lang (r1 @ r2)"
      by (auto simp: item lang.simps)
    moreover then obtain u v where "y = u @ v" "u \<in> lang r1" "v \<in> lang r2"
      using Cons.IH by auto
    ultimately have "w = (x @ u) @ v" "x @ u \<in> lang (item # r1)" "v \<in> lang r2"
      by (auto simp: item lang.simps)
    then show "w \<in> {u @ v | u v. u \<in> lang (item # r1) \<and> v \<in> lang r2}" by blast
  next
    fix w
    assume "w \<in> {u @ v | u v. u \<in> lang (item # r1) \<and> v \<in> lang r2}"
    then obtain u v where w: "w = u @ v" and "u \<in> lang (item # r1)" and v: "v \<in> lang r2"
      by blast
    then obtain x y where u: "u = x @ y" and x: "x \<in> item_lang a q" and y: "y \<in> lang r1"
      by (auto simp: item lang.simps)
    from y v have "y @ v \<in> lang (r1 @ r2)" using Cons.IH by blast
    with x have "x @ (y @ v) \<in> lang ((item # r1) @ r2)"
      unfolding item append_Cons lang.simps by blast
    with w u show "w \<in> lang ((item # r1) @ r2)" by simp
  qed
qed

lemma lang_lit: "lang (lit w) = {k. map canonicalize k = map canonicalize (js w)}"
proof (induction w)
  case Nil
  show ?case by (simp add: lit_def js_def)
next
  case (Cons c w)
  have "k \<in> lang (lit (c # w)) \<longleftrightarrow>
        (\<exists>d v. k = d # v \<and> canonicalize d = canonicalize (of_char c) \<and> v \<in> lang (lit w))" for k
    by (simp add: lit_def lang_Once)
  then show ?case
    by (auto simp: Cons.IH js_def Cons_eq_map_conv)
qed

lemma lang_blanks:
  "lang [(Space, Star)] = {u. list_all is_whitespace u}"
  "lang [(Space, Plus)] = {u. u \<noteq> [] \<and> list_all is_whitespace u}"
  by (auto simp: lang.simps list_all_iff)

lemma unsafe_if_occurs:
  "p \<in> set dangerousPatterns \<Longrightarrow> u \<in> lang p \<Longrightarrow> \<not> safe (checkSQLSecurity (pre @ u @ post))"
  by (auto simp: checkSQLSecurity_def check_patterns_eq regex_test_occurs occurs_in_def)

lemma stacked_drop_in_any_case:
  assumes "map canonicalize kw = js ''DROP''" and "list_all is_whitespace ws" and "is_whitespace w"
  shows "\<not> safe (checkSQLSecurity (pre @ [59] @ ws @ kw @ [w] @ post))"
proof -
  have "[59] \<in> lang (lit '';'')"
    by (simp add: lang_lit js_def)
  moreover have "ws \<in> lang [(Space, Star)]" and "[w] \<in> lang [(Space, Plus)]"
    using assms by (simp_all add: lang_blanks)
  moreover have "kw \<in> lang (lit ''DROP'')"
    using assms(1) by (simp add: lang_lit js_def canonicalize_def)
  ultimately have "[59] @ ws @ kw @ [w] \<in>
      lang (lit '';'' @ [(Space, Star)] @ lit ''DROP'' @ [(Space, Plus)])"
    unfolding lang_append by blast
  moreover have "lit '';'' @ [(Space, Star)] @ lit ''DROP'' @ [(Space, Plus)] \<in> set dangerousPatterns"
    by (simp add: dangerousPatterns_def)
  ultimately have "\<not> safe (checkSQLSecurity (pre @ ([59] @ ws @ kw @ [w]) @ post))"
    by (rule unsafe_if_occurs [rotated])
  then show ?thesis by simp
qed

lemma into_outfile_in_any_case:
  assumes "map canonicalize kw1 = js ''INTO''" and "map canonicalize kw2 = js ''OUTFILE''"
    and "ws \<noteq> []" and "list_all is_whitespace ws"
  shows "\<not> safe (checkSQLSecurity (pre @ kw1 @ ws @ kw2 @ post))"
proof -
  have "kw1 \<in> lang (lit ''INTO'')" "kw2 \<in> lang (lit ''OUTFILE'')"
    using assms(1,2) by (simp_all add: lang_lit js_def canonicalize_def)
  moreover have "ws \<in> lang [(Space, Plus)]"
    using assms(3,4) by (simp add: lang_blanks)
  ultimately have "kw1 @ ws @ kw2 \<in> lang (lit ''INTO'' @ [(Space, Plus)] @ lit ''OUTFILE'')"
    unfolding lang_append by blast
  moreover have "lit ''INTO'' @ [(Space, Plus)] @ lit ''OUTFILE'' \<in> set dangerousPatterns"
    by (simp add: dangerousPatterns_def)
  ultimately have "\<not> safe (checkSQLSecurity (pre @ (kw1 @ ws @ kw2) @ post))"
    by (rule unsafe_if_occurs [rotated])
  then show ?thesis by simp
qed

section \<open>The executors, path by path\<close>

lemma issued_append: "snd (m tr) = tr @ evs \<Longrightarrow> issued m tr = evs"
  by (simp add: issued_def)

lemma withPerformanceMonitoring_eq:
  "withPerformanceMonitoring d affected operation sql params action tr =
     (fst (action tr),
      snd (action tr) @
      [Log \<lparr>log_timestamp = now d (snd (action tr)), log_operation = operation, log_sql = sql,
             log_params = params, log_duration = elapsed d tr (snd (action tr)),
             log_success = (case fst (action tr) of Inl e \<Rightarrow> False | Inr r \<Rightarrow> True),
             log_error = (case fst (action tr) of Inl e \<Rightarrow> Some (error_message e) | Inr r \<Rightarrow> None),
             log_affectedRows = (case fst (action tr) of Inl e \<Rightarrow> None | Inr r \<Rightarrow> affected r)\<rparr>])"
  by (simp add: withPerformanceMonitoring_def logQuery_def split: prod.splits sum.splits)

lemma modify_action_eq:
  "modify_action d sql params tr =
     (case drv_beginTransaction d tr of
        Some e \<Rightarrow> (Inl e, tr @ [Begin (Some e)])
      | None \<Rightarrow>
         (case drv_query d (tr @ [Begin None]) sql params of
            Inl e \<Rightarrow> (Inl e, tr @ [Begin None, Query sql params (Inl e)])
          | Inr res \<Rightarrow>
             (Inr \<lparr>success = True, affectedRows = result_affectedRows res,
                    insertId = result_insertId res, message = result_message res\<rparr>,
              tr @ [Begin None, Query sql params (Inr res),
                    Commit (drv_commit d (tr @ [Begin None, Query sql params (Inr res)]))])))"
  by (simp add: modify_action_def andThen_def startTransaction_def executeQueryWithConnection_def
      commitTransaction_def Let_def split: option.splits sum.splits)

lemma modify_action_outcome:
  "(\<exists>res c. modify_action d sql params tr =
       (Inr \<lparr>success = True, affectedRows = result_affectedRows res,
              insertId = result_insertId res, message = result_message res\<rparr>,
        tr @ [Begin None, Query sql params (Inr res), Commit c]) \<and>
      c = drv_commit d (tr @ [Begin None, Query sql params (Inr res)])) \<or>
   (\<exists>e cmds. modify_action d sql params tr = (Inl e, tr @ cmds) \<and> cmds \<noteq> [] \<and>
      failed_with e (last cmds) \<and> (\<forall>c. Commit c \<notin> set cmds) \<and> list_all is_command cmds)"
  by (simp add: modify_action_eq split: option.splits sum.splits)

lemma readonly_action_eq:
  "readonly_action d sql tr =
     (case drv_query d tr SET_READ_ONLY [] of
        Inl e \<Rightarrow> (Inl e, tr @ [Query SET_READ_ONLY [] (Inl e)])
      | Inr a \<Rightarrow>
         (case drv_beginTransaction d (tr @ [Query SET_READ_ONLY [] (Inr a)]) of
            Some e \<Rightarrow> (Inl e, tr @ [Query SET_READ_ONLY [] (Inr a), Begin (Some e)])
          | None \<Rightarrow>
             (case drv_query d (tr @ [Query SET_READ_ONLY [] (Inr a), Begin None]) sql [] of
                Inl e \<Rightarrow> (Inl e, tr @ [Query SET_READ_ONLY [] (Inr a), Begin None, Query sql [] (Inl e)])
              | Inr results \<Rightarrow>
                 (case drv_query d (tr @ [Query SET_READ_ONLY [] (Inr a), Begin None,
                                          Query sql [] (Inr results), Rollback]) SET_READ_WRITE [] of
                    Inl e \<Rightarrow> (Inl e, tr @ [Query SET_READ_ONLY [] (Inr a), Begin None,
                                            Query sql [] (Inr results), Rollback,
                                            Query SET_READ_WRITE [] (Inl e)])
                  | Inr c \<Rightarrow>
                     (Inr \<lparr>payload = ResultSet results, isError = False\<rparr>,
                      tr @ [Query SET_READ_ONLY [] (Inr a), Begin None,
                            Query sql [] (Inr results), Rollback,
                            Query SET_READ_WRITE [] (Inr c)])))))"
  by (simp add: readonly_action_def andThen_def startTransaction_def executeQueryWithConnection_def
      rollbackTransaction_def Let_def split: option.splits sum.splits)

lemma readonly_action_outcome:
  "(\<exists>a results c. readonly_action d sql tr =
       (Inr \<lparr>payload = ResultSet results, isError = False\<rparr>,
        tr @ [Query SET_READ_ONLY [] (Inr a), Begin None, Query sql [] (Inr results), Rollback,
              Query SET_READ_WRITE [] (Inr c)])) \<or>
   (\<exists>e cmds. readonly_action d sql tr = (Inl e, tr @ cmds) \<and> cmds \<noteq> [] \<and>
      failed_with e (last cmds) \<and> (\<forall>c. Commit c \<notin> set cmds) \<and> list_all is_command cmds)"
  by (simp add: readonly_action_eq split: option.splits sum.splits)


lemma executeModifyQuery_unacquired:
  "drv_getConnection d tr = Some e \<Longrightarrow> executeModifyQuery d sql params tr = (Inl e, tr)"
  by (simp add: executeModifyQuery_def andThen_def getConnectionFromPool_def)

lemma executeModifyQuery_rejected:
  "drv_getConnection d tr = None \<Longrightarrow> \<not> safe (checkSQLSecurity sql) \<Longrightarrow>
   executeModifyQuery d sql params tr =
     (Inr \<lparr>success = False, affectedRows = None, insertId = None,
            message = reason (checkSQLSecurity sql)\<rparr>, tr @ [Acquire])"
  by (simp add: executeModifyQuery_def andThen_def getConnectionFromPool_def)

lemma executeModifyQuery_eq:
  assumes "drv_getConnection d tr = None" and "safe (checkSQLSecurity sql)"
  shows "executeModifyQuery d sql params tr =
     (case withPerformanceMonitoring d affectedRows (toUpperCase (first_token (trim sql))) sql params
              (modify_action d sql params) (tr @ [Acquire]) of
        (Inr r, tr1) \<Rightarrow> (Inr r, tr1 @ [Release])
      | (Inl error, tr1) \<Rightarrow>
          (Inr \<lparr>success = False, affectedRows = None, insertId = None,
                 message = Some (error_message error)\<rparr>, tr1 @ [Rollback, Release]))"
  using assms
  by (simp add: executeModifyQuery_def andThen_def getConnectionFromPool_def Let_def release_def
      rollbackTransaction_def split: prod.splits sum.splits)

lemma executeModifyQuery_outcome:
  assumes "drv_getConnection d tr = None" and "safe (checkSQLSecurity sql)"
  shows
   "(\<exists>res c entry. executeModifyQuery d sql params tr =
       (Inr \<lparr>success = True, affectedRows = result_affectedRows res,
              insertId = result_insertId res, message = result_message res\<rparr>,
        tr @ [Acquire, Begin None, Query sql params (Inr res), Commit c, Log entry, Release]) \<and>
      c = drv_commit d (tr @ [Acquire, Begin None, Query sql params (Inr res)]) \<and>
      log_success entry \<and> log_error entry = None \<and>
      log_operation entry = toUpperCase (first_token (trim sql))) \<or>
    (\<exists>e cmds entry. executeModifyQuery d sql params tr =
       (Inr \<lparr>success = False, affectedRows = None, insertId = None,
              message = Some (error_message e)\<rparr>,
        tr @ Acquire # cmds @ [Log entry, Rollback, Release]) \<and>
      cmds \<noteq> [] \<and> failed_with e (last cmds) \<and> (\<forall>c. Commit c \<notin> set cmds) \<and>
      list_all is_command cmds \<and>
      \<not> log_success entry \<and> log_error entry = Some (error_message e) \<and>
      log_operation entry = toUpperCase (first_token (trim sql)))"
  using modify_action_outcome [of d sql params "tr @ [Acquire]"]
proof (elim disjE exE conjE)
  fix res c
  assume "modify_action d sql params (tr @ [Acquire]) =
       (Inr \<lparr>success = True, affectedRows = result_affectedRows res,
              insertId = result_insertId res, message = result_message res\<rparr>,
        (tr @ [Acquire]) @ [Begin None, Query sql params (Inr res), Commit c])"
    and "c = drv_commit d ((tr @ [Acquire]) @ [Begin None, Query sql params (Inr res)])"
  then show ?thesis
    by (intro disjI1 exI [of _ res] exI [of _ c])
      (simp add: executeModifyQuery_eq [OF assms] withPerformanceMonitoring_eq)
next
  fix e cmds
  assume "modify_action d sql params (tr @ [Acquire]) = (Inl e, (tr @ [Acquire]) @ cmds)"
    and "cmds \<noteq> []" "failed_with e (last cmds)" "\<forall>c. Commit c \<notin> set cmds"
    "list_all is_command cmds"
  then show ?thesis
    by (intro disjI2 exI [of _ e] exI [of _ cmds])
      (simp add: executeModifyQuery_eq [OF assms] withPerformanceMonitoring_eq)
qed

lemma executeReadOnlyQuery_unacquired:
  "drv_getConnection d tr = Some e \<Longrightarrow> executeReadOnlyQuery d sql tr = (Inl e, tr)"
  by (simp add: executeReadOnlyQuery_def andThen_def getConnectionFromPool_def)

lemma executeReadOnlyQuery_rejected:
  "drv_getConnection d tr = None \<Longrightarrow> \<not> safe (checkSQLSecurity sql) \<Longrightarrow>
   executeReadOnlyQuery d sql tr =
     (Inl (Error (case reason (checkSQLSecurity sql) of Some m \<Rightarrow> m | None \<Rightarrow> [])), tr @ [Acquire])"
  by (simp add: executeReadOnlyQuery_def andThen_def getConnectionFromPool_def)

lemma executeReadOnlyQuery_eq:
  assumes "drv_getConnection d tr = None" and "safe (checkSQLSecurity sql)"
  shows "executeReadOnlyQuery d sql tr =
     (case withPerformanceMonitoring d (\<lambda>_. None) SELECT sql [] (readonly_action d sql)
             (tr @ [Acquire]) of
        (Inr r, tr1) \<Rightarrow> (Inr r, tr1 @ [Release])
      | (Inl error, tr1) \<Rightarrow> (Inl error, tr1 @ [Rollback, Release]))"
  using assms
  by (simp add: executeReadOnlyQuery_def andThen_def getConnectionFromPool_def Let_def release_def
      rollbackTransaction_def split: prod.splits sum.splits)

lemma executeReadOnlyQuery_outcome:
  assumes "drv_getConnection d tr = None" and "safe (checkSQLSecurity sql)"
  shows
   "(\<exists>a results c entry. executeReadOnlyQuery d sql tr =
       (Inr \<lparr>payload = ResultSet results, isError = False\<rparr>,
        tr @ [Acquire, Query SET_READ_ONLY [] (Inr a), Begin None, Query sql [] (Inr results),
              Rollback, Query SET_READ_WRITE [] (Inr c), Log entry, Release]) \<and>
      log_success entry \<and> log_error entry = None) \<or>
    (\<exists>e cmds entry. executeReadOnlyQuery d sql tr =
       (Inl e, tr @ Acquire # cmds @ [Log entry, Rollback, Release]) \<and>
      cmds \<noteq> [] \<and> failed_with e (last cmds) \<and> (\<forall>c. Commit c \<notin> set cmds) \<and>
      list_all is_command cmds \<and>
      \<not> log_success entry \<and> log_error entry = Some (error_message e))"
  using readonly_action_outcome [of d sql "tr @ [Acquire]"]
proof (elim disjE exE conjE)
  fix a results c
  assume "readonly_action d sql (tr @ [Acquire]) =
       (Inr \<lparr>payload = ResultSet results, isError = False\<rparr>,
        (tr @ [Acquire]) @ [Query SET_READ_ONLY [] (Inr a), Begin None, Query sql [] (Inr results),
           Rollback, Query SET_READ_WRITE [] (Inr c)])"
  then show ?thesis
    by (intro disjI1 exI [of _ a] exI [of _ results] exI [of _ c])
      (simp add: executeReadOnlyQuery_eq [OF assms] withPerformanceMonitoring_eq)
next
  fix e cmds
  assume "readonly_action d sql (tr @ [Acquire]) = (Inl e, (tr @ [Acquire]) @ cmds)"
    and "cmds \<noteq> []" "failed_with e (last cmds)" "\<forall>c. Commit c \<notin> set cmds"
    "list_all is_command cmds"
  then show ?thesis
    by (intro disjI2 exI [of _ e] exI [of _ cmds])
      (simp add: executeReadOnlyQuery_eq [OF assms] withPerformanceMonitoring_eq)
qed

lemma executeQuery_unacquired:
  "drv_getConnection d tr = Some e \<Longrightarrow> executeQuery d sql params tr = (Inl e, tr)"
  by (simp add: executeQuery_def andThen_def getConnectionFromPool_def)

lemma executeQuery_rejected:
  "drv_getConnection d tr = None \<Longrightarrow> \<not> safe (checkSQLSecurity sql) \<Longrightarrow>
   executeQuery d sql params tr =
     (Inl (Error (case reason (checkSQLSecurity sql) of Some m \<Rightarrow> m | None \<Rightarrow> [])), tr @ [Acquire])"
  by (simp add: executeQuery_def andThen_def getConnectionFromPool_def)

lemma executeQuery_too_long:
  "drv_getConnection d tr = None \<Longrightarrow> safe (checkSQLSecurity sql) \<Longrightarrow>
   length sql > maxQueryLength \<Longrightarrow>
   executeQuery d sql params tr = (Inl (Error limit_message), tr @ [Acquire])"
  by (simp add: executeQuery_def andThen_def getConnectionFromPool_def checkQueryLimits_def)

lemma executeQuery_accepted:
  assumes "drv_getConnection d tr = None" and "safe (checkSQLSecurity sql)"
    and "length sql \<le> maxQueryLength"
  shows "\<exists>entry. executeQuery d sql params tr =
      (drv_query d (tr @ [Acquire]) sql params,
       tr @ [Acquire, Query sql params (drv_query d (tr @ [Acquire]) sql params), Log entry, Release]) \<and>
     log_success entry = (case drv_query d (tr @ [Acquire]) sql params of Inl e \<Rightarrow> False | Inr r \<Rightarrow> True) \<and>
     log_error entry =
       (case drv_query d (tr @ [Acquire]) sql params of Inl e \<Rightarrow> Some (error_message e) | Inr r \<Rightarrow> None)"
  using assms
  by (simp add: executeQuery_def andThen_def getConnectionFromPool_def checkQueryLimits_def
      withPerformanceMonitoring_eq executeQueryWithConnection_def Let_def release_def)

lemma set_modes_differ: "SET_READ_WRITE \<noteq> SET_READ_ONLY"
  by (simp add: SET_READ_WRITE_def SET_READ_ONLY_def js_def)

lemma session_after_readonly:
  "session_after effect s
     [Acquire, Query SET_READ_ONLY [] (Inr a), Begin None, Query sql [] (Inr results), Rollback,
      Query SET_READ_WRITE [] (Inr c), Log entry, Release] =
   (session_after effect s
     [Acquire, Query SET_READ_ONLY [] (Inr a), Begin None, Query sql [] (Inr results)])
     \<lparr>in_transaction := False, read_only := False\<rparr>"
  by (simp add: session_after_def set_modes_differ)

lemma insert_safe:
  "checkSQLSecurity (js ''INSERT INTO t VALUES (1)'') = \<lparr>safe = True, reason = None\<rparr>"
  by (simp add: checkSQLSecurity_def js_def dangerousPatterns_def lit_def canonicalize_def
      is_whitespace_def)

lemma unsafe_reason:
  "\<not> safe (checkSQLSecurity sql) \<Longrightarrow> reason (checkSQLSecurity sql) = Some injection_message"
  by (simp add: checkSQLSecurity_def check_patterns_eq split: if_splits)

section \<open>The executors on concrete drivers\<close>

lemma quiet_readonly:
  "executeReadOnlyQuery quiet_driver (js ''SELECT * FROM t'') [] =
     (Inr \<lparr>payload = ResultSet (Rows []), isError = False\<rparr>,
      [Acquire, Query SET_READ_ONLY [] (Inr (Rows [])), Begin None,
       Query (js ''SELECT * FROM t'') [] (Inr (Rows [])), Rollback,
       Query SET_READ_WRITE [] (Inr (Rows [])),
       Log \<lparr>log_timestamp = 0, log_operation = SELECT, log_sql = js ''SELECT * FROM t'',
            log_params = [], log_duration = 0, log_success = True, log_error = None,
            log_affectedRows = None\<rparr>,
       Release])"
  by (simp add: executeReadOnlyQuery_eq plain_select_safe withPerformanceMonitoring_eq
      readonly_action_eq quiet_driver_def)

lemma failing_readonly:
  "executeReadOnlyQuery failing_driver (js ''SELECT * FROM t'') [] =
     (Inl (Error (js ''ER_DUP_ENTRY'')),
      [Acquire, Query SET_READ_ONLY [] (Inl (Error (js ''ER_DUP_ENTRY''))),
       Log \<lparr>log_timestamp = 0, log_operation = SELECT, log_sql = js ''SELECT * FROM t'',
            log_params = [], log_duration = 0, log_success = False,
            log_error = Some (js ''ER_DUP_ENTRY''), log_affectedRows = None\<rparr>,
       Rollback, Release])"
  by (simp add: executeReadOnlyQuery_eq plain_select_safe withPerformanceMonitoring_eq
      readonly_action_eq quiet_driver_def failing_driver_def)

lemma writing_modify:
  "executeModifyQuery writing_driver (js ''INSERT INTO t VALUES (1)'') [] [] =
     (Inr \<lparr>success = True, affectedRows = Some 1, insertId = Some 7, message = Some []\<rparr>,
      [Acquire, Begin None, Query (js ''INSERT INTO t VALUES (1)'') [] (Inr (OkPacket 1 7 [])),
       Commit None,
       Log \<lparr>log_timestamp = 0, log_operation = js ''INSERT'',
            log_sql = js ''INSERT INTO t VALUES (1)'', log_params = [], log_duration = 0,
            log_success = True, log_error = None, log_affectedRows = Some 1\<rparr>,
       Release])"
  by (simp add: executeModifyQuery_eq insert_safe withPerformanceMonitoring_eq
      modify_action_eq quiet_driver_def writing_driver_def)
    (simp add: js_def toUpperCase_def first_token_def trim_def is_whitespace_def upper_unit_def)

lemma failing_modify:
  "executeModifyQuery failing_driver (js ''INSERT INTO t VALUES (1)'') [] [] =
     (Inr \<lparr>success = False, affectedRows = None, insertId = None,
            message = Some (js ''ER_DUP_ENTRY'')\<rparr>,
      [Acquire, Begin None,
       Query (js ''INSERT INTO t VALUES (1)'') [] (Inl (Error (js ''ER_DUP_ENTRY''))),
       Log \<lparr>log_timestamp = 0, log_operation = js ''INSERT'',
            log_sql = js ''INSERT INTO t VALUES (1)'', log_params = [], log_duration = 0,
            log_success = False, log_error = Some (js ''ER_DUP_ENTRY''), log_affectedRows = None\<rparr>,
       Rollback, Release])"
  by (simp add: executeModifyQuery_eq insert_safe withPerformanceMonitoring_eq
      modify_action_eq quiet_driver_def failing_driver_def)
    (simp add: js_def toUpperCase_def first_token_def trim_def is_whitespace_def upper_unit_def)

lemma length_js: "length (js s) = length s"
  by (simp add: js_def)

lemma failing_query:
  "executeQuery failing_driver (js ''SELECT * FROM t'') [] [] =
     (Inl (Error (js ''ER_DUP_ENTRY'')),
      [Acquire, Query (js ''SELECT * FROM t'') [] (Inl (Error (js ''ER_DUP_ENTRY''))),
       Log \<lparr>log_timestamp = 0, log_operation = SELECT, log_sql = js ''SELECT * FROM t'',
            log_params = [], log_duration = 0, log_success = False,
            log_error = Some (js ''ER_DUP_ENTRY''), log_affectedRows = None\<rparr>,
       Release])"
  by (simp add: executeQuery_def andThen_def getConnectionFromPool_def checkQueryLimits_def
      withPerformanceMonitoring_eq executeQueryWithConnection_def Let_def release_def
      plain_select_safe failing_driver_def quiet_driver_def maxQueryLength_def length_js)

section \<open>The catalogue statements\<close>

lemma tables_query_safe: "checkSQLSecurity TABLES_QUERY = \<lparr>safe = True, reason = None\<rparr>"
  by code_simp

lemma column_query_safe: "checkSQLSecurity COLUMN_METADATA_QUERY = \<lparr>safe = True, reason = None\<rparr>"
  by code_simp

lemma catalog_queries_short:
  "length TABLES_QUERY \<le> maxQueryLength" "length COLUMN_METADATA_QUERY \<le> maxQueryLength"
  by (simp_all add: TABLES_QUERY_def COLUMN_METADATA_QUERY_def length_js maxQueryLength_def)

lemma parsed_tables_query:
  "Option.bind (scan [] TABLES_QUERY) parse_select =
     Some \<lparr>sel_columns = [js ''table_name''], sel_table = js ''information_schema.tables'',
           sel_conds = [(js ''table_schema'', Database)]\<rparr>"
  by code_simp

lemma parsed_columns_query:
  "Option.bind (scan [] COLUMN_METADATA_QUERY) parse_select =
     Some \<lparr>sel_columns = [js ''column_name'', js ''data_type''],
           sel_table = js ''information_schema.columns'',
           sel_conds = [(js ''table_schema'', Database), (js ''table_name'', Placeholder)]\<rparr>"
  by code_simp

lemma run_select_parsed:
  "run_select srv sql params =
     (case Option.bind (scan [] sql) parse_select of
        None \<Rightarrow> None
      | Some st \<Rightarrow>
         (case catalogue srv (sel_table st) of
            None \<Rightarrow> None
          | Some (names, rows) \<Rightarrow>
              if \<not> list_all (known_column names) (sel_columns st @ map fst (sel_conds st))
              then None
              else
                (case bind_operands srv (sel_conds st) params of
                   None \<Rightarrow> None
                 | Some bs \<Rightarrow>
                     Some (map (project (sel_columns st)) (filter (row_satisfies bs) rows)))))"
  by (simp add: run_select_def split: option.splits)

lemma names_differ:
  "map canonicalize (js ''table_name'') \<noteq> map canonicalize (js ''table_schema'')"
  "map canonicalize (js ''column_name'') \<noteq> map canonicalize (js ''table_schema'')"
  "map canonicalize (js ''column_name'') \<noteq> map canonicalize (js ''table_name'')"
  "map canonicalize (js ''data_type'') \<noteq> map canonicalize (js ''table_schema'')"
  "map canonicalize (js ''data_type'') \<noteq> map canonicalize (js ''table_name'')"
  "map canonicalize (js ''data_type'') \<noteq> map canonicalize (js ''column_name'')"
  "map canonicalize (js ''information_schema.columns'') \<noteq> map canonicalize (js ''information_schema.tables'')"
  by (simp_all add: js_def canonicalize_def)

lemma database_value: "(case db of Some x \<Rightarrow> Str x | None \<Rightarrow> Null) = Str s \<longleftrightarrow> db = Some s"
  by (cases db) auto

lemma sql_equal_Str: "sql_equal (Str t) p \<longleftrightarrow> p = Str t"
  by (cases p) auto

lemma run_tables_query: "run_select srv TABLES_QUERY params = Some (tables_rows srv)"
  by (simp add: run_select_parsed parsed_tables_query catalogue_def keyword_def known_column_def
      names_differ names_differ [symmetric] tables_rows_def filter_map o_def split_def
      row_satisfies_def column_value_def project_def sql_equal_Str database_value)

lemma run_columns_query:
  "run_select srv COLUMN_METADATA_QUERY [p] = Some (columns_rows srv p)"
  by (simp add: run_select_parsed parsed_columns_query catalogue_def keyword_def known_column_def
      names_differ names_differ [symmetric] columns_rows_def filter_map o_def split_def
      row_satisfies_def column_value_def project_def sql_equal_Str database_value)

lemma unscoped_statement_lists_every_schema:
  "run_select example_server (js ''SELECT table_name FROM information_schema.tables'') [] =
     Some [[(js ''table_name'', Str (js ''orders''))], [(js ''table_name'', Str (js ''salaries''))]]"
  by code_simp

lemma connected_to_simps:
  "drv_getConnection (connected_to srv d) = drv_getConnection d"
  "drv_query (connected_to srv d) tr TABLES_QUERY params =
     (case drv_query d tr TABLES_QUERY params of
        Inl e \<Rightarrow> Inl e | Inr r \<Rightarrow> Inr (Rows (tables_rows srv)))"
  "drv_query (connected_to srv d) tr COLUMN_METADATA_QUERY [p] =
     (case drv_query d tr COLUMN_METADATA_QUERY [p] of
        Inl e \<Rightarrow> Inl e | Inr r \<Rightarrow> Inr (Rows (columns_rows srv p)))"
  by (simp_all add: connected_to_def run_tables_query run_columns_query split: sum.splits)

lemma executeQuery_tables:
  "executeQuery (connected_to srv d) TABLES_QUERY [] tr = (Inr r, tr1) \<Longrightarrow>
   r = Rows (tables_rows srv) \<and>
   (\<exists>entry. tr1 = tr @ [Acquire, Query TABLES_QUERY [] (Inr r), Log entry, Release])"
proof (cases "drv_getConnection d tr")
  case (Some e)
  assume "executeQuery (connected_to srv d) TABLES_QUERY [] tr = (Inr r, tr1)"
  with Some show ?thesis
    by (simp add: executeQuery_unacquired connected_to_simps)
next
  case None
  assume run: "executeQuery (connected_to srv d) TABLES_QUERY [] tr = (Inr r, tr1)"
  from None have "drv_getConnection (connected_to srv d) tr = None"
    by (simp add: connected_to_simps)
  from executeQuery_accepted [OF this, of TABLES_QUERY "[]"] run
  show ?thesis
    by (auto simp: tables_query_safe catalog_queries_short connected_to_simps split: sum.splits)
qed

lemma executeQuery_columns:
  "executeQuery (connected_to srv d) COLUMN_METADATA_QUERY [p] tr = (Inr r, tr1) \<Longrightarrow>
   r = Rows (columns_rows srv p) \<and>
   (\<exists>entry. tr1 = tr @ [Acquire, Query COLUMN_METADATA_QUERY [p] (Inr r), Log entry, Release])"
proof (cases "drv_getConnection d tr")
  case (Some e)
  assume "executeQuery (connected_to srv d) COLUMN_METADATA_QUERY [p] tr = (Inr r, tr1)"
  with Some show ?thesis
    by (simp add: executeQuery_unacquired connected_to_simps)
next
  case None
  assume run: "executeQuery (connected_to srv d) COLUMN_METADATA_QUERY [p] tr = (Inr r, tr1)"
  from None have "drv_getConnection (connected_to srv d) tr = None"
    by (simp add: connected_to_simps)
  from executeQuery_accepted [OF this, of COLUMN_METADATA_QUERY "[p]"] run
  show ?thesis
    by (auto simp: column_query_safe catalog_queries_short connected_to_simps split: sum.splits)
qed


lemma executeQuery_queries:
  assumes "Query q ps ans \<in> set (issued (executeQuery d sql params) tr)"
  shows "q = sql \<and> ps = params"
proof (cases "drv_getConnection d tr")
  case (Some e)
  with assms show ?thesis by (simp add: executeQuery_unacquired issued_def)
next
  case None
  note acquired = this
  show ?thesis
  proof (cases "safe (checkSQLSecurity sql)")
    case False
    with acquired assms show ?thesis by (simp add: executeQuery_rejected issued_def)
  next
    case True
    show ?thesis
    proof (cases "length sql \<le> maxQueryLength")
      case False
      with acquired True assms show ?thesis by (simp add: executeQuery_too_long issued_def)
    next
      case short: True
      from executeQuery_accepted [OF acquired True short, of params] assms
      show ?thesis by (auto simp: issued_def)
    qed
  qed
qed

lemma andThen_return_fst:
  "fst (andThen m (\<lambda>x tr. (Inr (f x), tr)) tr) = Inr y \<longleftrightarrow> (\<exists>x. fst (m tr) = Inr x \<and> y = f x)"
  by (auto simp: andThen_def split: prod.splits sum.splits)

lemma andThen_return_snd: "snd (andThen m (\<lambda>x tr. (g x, tr)) tr) = snd (m tr)"
  by (simp add: andThen_def split: prod.splits sum.splits)

lemma executeQuery_tables_fst:
  "fst (executeQuery (connected_to srv d) TABLES_QUERY [] tr) = Inr r \<Longrightarrow>
   r = Rows (tables_rows srv)"
  using executeQuery_tables [of srv d tr r "snd (executeQuery (connected_to srv d) TABLES_QUERY [] tr)"]
  by (cases "executeQuery (connected_to srv d) TABLES_QUERY [] tr") simp

lemma executeQuery_columns_fst:
  "fst (executeQuery (connected_to srv d) COLUMN_METADATA_QUERY [p] tr) = Inr r \<Longrightarrow>
   r = Rows (columns_rows srv p)"
  using executeQuery_columns [of srv d p tr r
      "snd (executeQuery (connected_to srv d) COLUMN_METADATA_QUERY [p] tr)"]
  by (cases "executeQuery (connected_to srv d) COLUMN_METADATA_QUERY [p] tr") simp

lemma list_tables_rows:
  "fst (callTool (connected_to srv d) list_tables tr) = Inr r \<Longrightarrow>
   payload r = ResultSet (Rows (tables_rows srv))"
  by (auto simp: callTool_def andThen_return_fst dest: executeQuery_tables_fst)

lemma describe_table_rows:
  "fst (callTool (connected_to srv d) (describe_table t) tr) = Inr r \<Longrightarrow>
   \<exists>tn. t = Some tn \<and> payload r = ResultSet (Rows (columns_rows srv (Str tn)))"
  by (cases t) (auto simp: callTool_def andThen_return_fst dest: executeQuery_columns_fst
      split: if_splits)

lemma listResources_rows:
  "fst (listResources (connected_to srv d) host_port tr) = Inr rs \<Longrightarrow>
   map_throwing (table_resource (connected_to srv d) host_port) (tables_rows srv) = Inr rs"
  by (auto simp: listResources_def andThen_def dest!: executeQuery_tables
      split: prod.splits sum.splits dbresult.splits)

lemma readResource_rows:
  assumes "fst (readResource (connected_to srv d) u tr) = Inr c"
  shows "\<exists>p. contents c = Rows (columns_rows srv p)"
proof -
  from assms obtain p where
    "fst (executeQuery (connected_to srv d) COLUMN_METADATA_QUERY [p] tr) = Inr (contents c)"
    by (auto simp: readResource_def Let_def andThen_return_fst split: sum.splits if_splits)
  from executeQuery_columns_fst [OF this] show ?thesis ..
qed

lemma list_tables_queries:
  "Query q ps ans \<in> set (issued (callTool d list_tables) tr) \<Longrightarrow> q = TABLES_QUERY"
  using executeQuery_queries [of q ps ans d TABLES_QUERY "[]" tr]
  by (simp add: callTool_def issued_def andThen_return_snd)

lemma describe_table_queries:
  "Query q ps ans \<in> set (issued (callTool d (describe_table t)) tr) \<Longrightarrow> q = COLUMN_METADATA_QUERY"
  using executeQuery_queries [of q ps ans d COLUMN_METADATA_QUERY "[Str (the t)]" tr]
  by (cases t) (simp_all add: callTool_def issued_def andThen_return_snd split: if_splits)

lemma listResources_queries:
  "Query q ps ans \<in> set (issued (listResources d host_port) tr) \<Longrightarrow> q = TABLES_QUERY"
proof -
  have "snd (listResources d host_port tr) = snd (executeQuery d TABLES_QUERY [] tr)"
    by (simp add: listResources_def andThen_def split: prod.splits sum.splits dbresult.splits)
  then show "Query q ps ans \<in> set (issued (listResources d host_port) tr) \<Longrightarrow> q = TABLES_QUERY"
    using executeQuery_queries [of q ps ans d TABLES_QUERY "[]" tr]
    by (simp add: issued_def)
qed

lemma readResource_queries:
  assumes "Query q ps ans \<in> set (issued (readResource d u) tr)"
  shows "q = COLUMN_METADATA_QUERY"
proof -
  have "snd (readResource d u tr) = tr \<or>
        (\<exists>p. snd (readResource d u tr) = snd (executeQuery d COLUMN_METADATA_QUERY [p] tr))"
    by (auto simp: readResource_def Let_def andThen_return_snd split: sum.splits)
  then show ?thesis
  proof
    assume "snd (readResource d u tr) = tr"
    with assms show ?thesis by (simp add: issued_def)
  next
    assume "\<exists>p. snd (readResource d u tr) = snd (executeQuery d COLUMN_METADATA_QUERY [p] tr)"
    then obtain p where "snd (readResource d u tr) = snd (executeQuery d COLUMN_METADATA_QUERY [p] tr)" ..
    with assms executeQuery_queries [of q ps ans d COLUMN_METADATA_QUERY "[p]" tr]
    show ?thesis by (simp add: issued_def)
  qed
qed

lemma executeQuery_accepted_eq:
  assumes "drv_getConnection d tr = None" and "safe (checkSQLSecurity sql)"
    and "length sql \<le> maxQueryLength"
  shows "executeQuery d sql params tr =
      (drv_query d (tr @ [Acquire]) sql params,
       tr @ [Acquire, Query sql params (drv_query d (tr @ [Acquire]) sql params),
         Log \<lparr>log_timestamp = now d (tr @ [Acquire, Query sql params (drv_query d (tr @ [Acquire]) sql params)]),
              log_operation = SELECT, log_sql = sql, log_params = params,
              log_duration = elapsed d (tr @ [Acquire])
                (tr @ [Acquire, Query sql params (drv_query d (tr @ [Acquire]) sql params)]),
              log_success = (case drv_query d (tr @ [Acquire]) sql params of
                               Inl e \<Rightarrow> False | Inr r \<Rightarrow> True),
              log_error = (case drv_query d (tr @ [Acquire]) sql params of
                             Inl e \<Rightarrow> Some (error_message e) | Inr r \<Rightarrow> None),
              log_affectedRows = (case drv_query d (tr @ [Acquire]) sql params of
                                    Inl e \<Rightarrow> None | Inr r \<Rightarrow> result_affectedRows r)\<rparr>,
         Release])"
  using assms
  by (simp add: executeQuery_def andThen_def getConnectionFromPool_def checkQueryLimits_def
      withPerformanceMonitoring_eq executeQueryWithConnection_def Let_def release_def)

lemma quiet_driver_simps:
  "drv_getConnection quiet_driver tr = None"
  "drv_query quiet_driver tr sql params = Inr (Rows [])"
  "drv_beginTransaction quiet_driver tr = None"
  "drv_commit quiet_driver tr = None"
  "elapsed quiet_driver tr tr1 = 0"
  "now quiet_driver tr = 0"
  by (simp_all add: quiet_driver_def)

lemma connected_to_clock:
  "now (connected_to srv d) = now d" "elapsed (connected_to srv d) = elapsed d"
  by (simp_all add: connected_to_def)

lemma example_tables_rows:
  "tables_rows example_server = [[(js ''table_name'', Str (js ''orders''))]]"
  by (simp add: tables_rows_def example_server_def js_def)

lemma example_columns_rows:
  "columns_rows example_server (Str (js ''orders'')) =
     [[(js ''column_name'', Str (js ''id'')), (js ''data_type'', Str (js ''int''))]]"
  "columns_rows example_server (Str (js ''salaries'')) = []"
  by (simp_all add: columns_rows_def example_server_def js_def)

lemma example_list_tables:
  "callTool (connected_to example_server quiet_driver) list_tables [] =
     (Inr \<lparr>payload = ResultSet (Rows [[(js ''table_name'', Str (js ''orders''))]]),
            isError = False\<rparr>,
      [Acquire, Query TABLES_QUERY [] (Inr (Rows [[(js ''table_name'', Str (js ''orders''))]])),
       Log \<lparr>log_timestamp = 0, log_operation = SELECT, log_sql = TABLES_QUERY, log_params = [],
            log_duration = 0, log_success = True, log_error = None, log_affectedRows = None\<rparr>,
       Release])"
  by (simp add: callTool_def andThen_def executeQuery_accepted_eq tables_query_safe
      catalog_queries_short connected_to_simps connected_to_clock quiet_driver_simps
      example_tables_rows)

lemma example_describe_other_schema:
  "fst (callTool (connected_to example_server quiet_driver) (describe_table (Some (js ''salaries''))) []) =
     Inr \<lparr>payload = ResultSet (Rows []), isError = False\<rparr>"
proof -
  have "js ''salaries'' \<noteq> []" by (simp add: js_def)
  then show ?thesis
    by (simp add: callTool_def andThen_def executeQuery_accepted_eq column_query_safe
        catalog_queries_short connected_to_simps connected_to_clock quiet_driver_simps
        example_columns_rows)
qed

lemma connected_to_platform:
  "url_href (connected_to srv d) = url_href d" "url_pathname (connected_to srv d) = url_pathname d"
  "opaque_string (connected_to srv d) = opaque_string d"
  by (simp_all add: connected_to_def)

lemma quiet_driver_platform:
  "url_href quiet_driver path base = Inl (Error (js ''Invalid URL''))"
  "url_pathname quiet_driver u = example_pathname u"
  by (simp_all add: quiet_driver_def)

lemma archive_tables_rows: "tables_rows archive_server = []"
  by (simp add: tables_rows_def archive_server_def example_server_def js_def)

lemma archive_list_resources:
  "listResources (connected_to archive_server quiet_driver) (js ''127.0.0.1:3306'') [] =
     (Inr [],
      [Acquire, Query TABLES_QUERY [] (Inr (Rows [])),
       Log \<lparr>log_timestamp = 0, log_operation = SELECT, log_sql = TABLES_QUERY, log_params = [],
            log_duration = 0, log_success = True, log_error = None, log_affectedRows = None\<rparr>,
       Release])"
  by (simp add: listResources_def andThen_def executeQuery_accepted_eq tables_query_safe
      catalog_queries_short connected_to_simps connected_to_clock quiet_driver_simps
      archive_tables_rows)

lemma example_path:
  "example_pathname (js ''mysql://db/orders/schema'') = Inr (js ''/orders/schema'')"
  "split_on 47 (js ''/orders/schema'') = [[], js ''orders'', js ''schema'']"
  by (simp_all add: example_pathname_def path_char_def js_def)

lemma example_read_resource:
  "readResource (connected_to example_server quiet_driver) (js ''mysql://db/orders/schema'') [] =
     (Inr \<lparr>contents_uri = js ''mysql://db/orders/schema'',
            contents_mimeType = js ''application/json'',
            contents = Rows [[(js ''column_name'', Str (js ''id'')),
                              (js ''data_type'', Str (js ''int''))]]\<rparr>,
      [Acquire,
       Query COLUMN_METADATA_QUERY [Str (js ''orders'')]
         (Inr (Rows [[(js ''column_name'', Str (js ''id'')), (js ''data_type'', Str (js ''int''))]])),
       Log \<lparr>log_timestamp = 0, log_operation = SELECT, log_sql = COLUMN_METADATA_QUERY,
            log_params = [Str (js ''orders'')], log_duration = 0, log_success = True,
            log_error = None, log_affectedRows = None\<rparr>,
       Release])"
  by (simp add: readResource_def andThen_def executeQuery_accepted_eq column_query_safe
      catalog_queries_short connected_to_simps connected_to_clock quiet_driver_simps
      example_columns_rows connected_to_platform quiet_driver_platform example_path Let_def)

section \<open>Trimming, the first token and upper case\<close>

lemma split_on_nonempty: "split_on sep s \<noteq> []"
  by (induction s) (auto split: list.splits)

lemma first_token_split: "first_token s = hd (split_on 32 s)"
  by (induction s) (auto simp: first_token_def split_on_nonempty split: list.splits)

lemma upper_unit_whitespace: "is_whitespace w \<Longrightarrow> upper_unit w = [w]"
  by (auto simp: is_whitespace_def upper_unit_def)

lemma upper_unit_letter:
  "65 \<le> canonicalize c \<Longrightarrow> canonicalize c \<le> 90 \<Longrightarrow> upper_unit c = [canonicalize c]"
  by (auto simp: canonicalize_def upper_unit_def split: if_splits)

lemma letter_not_whitespace:
  "65 \<le> canonicalize c \<Longrightarrow> canonicalize c \<le> 90 \<Longrightarrow> \<not> is_whitespace c"
  by (auto simp: canonicalize_def is_whitespace_def split: if_splits)

lemma toUpperCase_letters:
  "\<forall>c \<in> set kw. 65 \<le> canonicalize c \<and> canonicalize c \<le> 90 \<Longrightarrow>
   toUpperCase kw = map canonicalize kw"
  by (induction kw) (simp_all add: toUpperCase_def upper_unit_letter)

lemma toUpperCase_append: "toUpperCase (xs @ ys) = toUpperCase xs @ toUpperCase ys"
  by (simp add: toUpperCase_def)

lemma select_keyword:
  assumes "map canonicalize kw = SELECT"
  shows "toUpperCase kw = SELECT" and "\<forall>c \<in> set kw. \<not> is_whitespace c" and "kw \<noteq> []"
proof -
  have "canonicalize c \<in> set SELECT" if "c \<in> set kw" for c
  proof -
    from that have "canonicalize c \<in> set (map canonicalize kw)" by simp
    with assms show ?thesis by simp
  qed
  moreover have "\<forall>k \<in> set SELECT. 65 \<le> k \<and> k \<le> 90"
    by (simp add: SELECT_def js_def)
  ultimately have letters: "\<forall>c \<in> set kw. 65 \<le> canonicalize c \<and> canonicalize c \<le> 90"
    by blast
  from toUpperCase_letters [OF letters] assms show "toUpperCase kw = SELECT" by simp
  from letters show "\<forall>c \<in> set kw. \<not> is_whitespace c"
    by (blast dest: letter_not_whitespace)
  from assms show "kw \<noteq> []" by (auto simp: SELECT_def js_def)
qed

lemma dropWhile_keep: "xs \<noteq> [] \<Longrightarrow> \<not> P (hd xs) \<Longrightarrow> dropWhile P (ys @ xs) = dropWhile P ys @ xs"
  by (induction ys) (auto simp: neq_Nil_conv)

lemma trim_keyword_first:
  assumes "kw \<noteq> []" and "\<forall>c \<in> set kw. \<not> is_whitespace c" and "\<forall>c \<in> set ws. is_whitespace c"
  shows "trim (ws @ kw @ rest) = kw @ rev (dropWhile is_whitespace (rev rest))"
proof -
  from assms have "dropWhile is_whitespace (ws @ kw @ rest) = kw @ rest"
    by (cases kw) (simp_all add: dropWhile_append2)
  moreover have "dropWhile is_whitespace (rev rest @ rev kw) =
      dropWhile is_whitespace (rev rest) @ rev kw"
    using assms by (intro dropWhile_keep) (simp_all add: hd_rev)
  ultimately show ?thesis by (simp add: trim_def)
qed

lemma first_token_keyword:
  assumes "\<forall>c \<in> set kw. \<not> is_whitespace c"
  shows "first_token (kw @ rest) = kw @ first_token rest"
proof -
  have "\<forall>c \<in> set kw. c \<noteq> 32" using assms by (auto simp: is_whitespace_def)
  then show ?thesis by (simp add: first_token_def takeWhile_append2)
qed

lemma trimmed_tail:
  "rev (dropWhile is_whitespace (rev (32 # rest))) = [] \<or>
   (\<exists>t. rev (dropWhile is_whitespace (rev (32 # rest))) = 32 # t)"
proof -
  have "rev (32 # rest) = takeWhile is_whitespace (rev (32 # rest)) @ dropWhile is_whitespace (rev (32 # rest))"
    by simp
  then have "32 # rest = rev (dropWhile is_whitespace (rev (32 # rest))) @
      rev (takeWhile is_whitespace (rev (32 # rest)))"
    by (metis rev_append rev_rev_ident)
  then show ?thesis
    by (cases "rev (dropWhile is_whitespace (rev (32 # rest)))") auto
qed

lemma select_then_space:
  assumes "map canonicalize kw = SELECT" and "\<forall>c \<in> set ws. is_whitespace c"
  shows "toUpperCase (first_token (trim (ws @ kw @ 32 # rest))) = SELECT"
proof -
  note kw = select_keyword [OF assms(1)]
  have "trim (ws @ kw @ 32 # rest) = kw @ rev (dropWhile is_whitespace (rev (32 # rest)))"
    by (rule trim_keyword_first [OF kw(3) kw(2) assms(2)])
  moreover define tail where "tail = rev (dropWhile is_whitespace (rev (32 # rest)))"
  moreover have "tail = [] \<or> (\<exists>t. tail = 32 # t)"
    unfolding tail_def by (rule trimmed_tail)
  then have "first_token tail = []"
    by (auto simp: first_token_def)
  ultimately show ?thesis
    by (simp add: first_token_keyword [OF kw(2)] kw(1))
qed

lemma select_then_other_whitespace:
  assumes "map canonicalize kw = SELECT" and "is_whitespace w" and "w \<noteq> 32"
    and "\<exists>c \<in> set rest. \<not> is_whitespace c"
  shows "toUpperCase (first_token (trim (kw @ w # rest))) \<noteq> SELECT"
proof -
  note kw = select_keyword [OF assms(1)]
  from assms(4) obtain c where "c \<in> set (rev rest)" and "\<not> is_whitespace c"
    by auto
  then have "dropWhile is_whitespace (rev rest @ [w]) = dropWhile is_whitespace (rev rest) @ [w]"
    by (rule dropWhile_append1)
  then have tail: "rev (dropWhile is_whitespace (rev (w # rest))) =
      w # rev (dropWhile is_whitespace (rev rest))"
    by simp
  have "trim ([] @ kw @ w # rest) = kw @ rev (dropWhile is_whitespace (rev (w # rest)))"
    by (rule trim_keyword_first [OF kw(3) kw(2)]) simp
  with tail have "first_token (trim (kw @ w # rest)) =
      kw @ w # first_token (rev (dropWhile is_whitespace (rev rest)))"
    using assms(3) by (simp add: first_token_keyword [OF kw(2)]) (simp add: first_token_def)
  then have "toUpperCase (first_token (trim (kw @ w # rest))) =
      SELECT @ w # toUpperCase (first_token (rev (dropWhile is_whitespace (rev rest))))"
    using toUpperCase_append [of "[w]"]
    by (simp add: toUpperCase_append kw(1) del: append.simps)
      (simp add: toUpperCase_def upper_unit_whitespace [OF assms(2)])
  then show ?thesis by simp
qed

lemma select_tab_safe: "checkSQLSecurity select_tab = \<lparr>safe = True, reason = None\<rparr>"
  by (simp add: checkSQLSecurity_def select_tab_def js_def dangerousPatterns_def lit_def
      canonicalize_def is_whitespace_def)

lemma select_tab_type: "toUpperCase (first_token (trim select_tab)) = js ''SELECT'' @ [9] @ js ''*''"
  by (simp add: select_tab_def js_def toUpperCase_def first_token_def trim_def is_whitespace_def
      upper_unit_def)

lemma select_newline_safe: "checkSQLSecurity select_newline = \<lparr>safe = True, reason = None\<rparr>"
  by (simp add: checkSQLSecurity_def select_newline_def js_def dangerousPatterns_def lit_def
      canonicalize_def is_whitespace_def)

lemma select_newline_type:
  "toUpperCase (first_token (trim select_newline)) = js ''SELECT'' @ [10] @ js ''1''"
  by (simp add: select_newline_def js_def toUpperCase_def first_token_def trim_def is_whitespace_def
      upper_unit_def)

lemma plain_select_type: "toUpperCase (first_token (trim (js ''SELECT * FROM t''))) = SELECT"
  by (simp add: SELECT_def js_def toUpperCase_def first_token_def trim_def is_whitespace_def
      upper_unit_def)

lemma quiet_modify:
  assumes "safe (checkSQLSecurity sql)"
  shows "executeModifyQuery quiet_driver sql [] [] =
     (Inr \<lparr>success = True, affectedRows = None, insertId = None, message = None\<rparr>,
      [Acquire, Begin None, Query sql [] (Inr (Rows [])), Commit None,
       Log \<lparr>log_timestamp = 0, log_operation = toUpperCase (first_token (trim sql)),
            log_sql = sql, log_params = [], log_duration = 0, log_success = True,
            log_error = None, log_affectedRows = None\<rparr>,
       Release])"
  using assms
  by (simp add: executeModifyQuery_eq withPerformanceMonitoring_eq modify_action_eq
      quiet_driver_simps)

lemma modify_log_operation:
  assumes "Log entry \<in> set (issued (executeModifyQuery d sql params) tr)"
  shows "log_operation entry = toUpperCase (first_token (trim sql))"
proof (cases "drv_getConnection d tr")
  case (Some e)
  with assms show ?thesis by (simp add: executeModifyQuery_unacquired issued_def)
next
  case None
  note acquired = this
  show ?thesis
  proof (cases "safe (checkSQLSecurity sql)")
    case False
    with acquired assms show ?thesis by (simp add: executeModifyQuery_rejected issued_def)
  next
    case True
    from executeModifyQuery_outcome [OF acquired True, of params] show ?thesis
    proof (elim disjE exE conjE)
      fix res c entry'
      assume "executeModifyQuery d sql params tr =
         (Inr \<lparr>success = True, affectedRows = result_affectedRows res,
                insertId = result_insertId res, message = result_message res\<rparr>,
          tr @ [Acquire, Begin None, Query sql params (Inr res), Commit c, Log entry', Release])"
        and "log_operation entry' = toUpperCase (first_token (trim sql))"
      with assms show ?thesis by (auto simp: issued_def)
    next
      fix e cmds entry'
      assume "executeModifyQuery d sql params tr =
         (Inr \<lparr>success = False, affectedRows = None, insertId = None,
                message = Some (error_message e)\<rparr>,
          tr @ Acquire # cmds @ [Log entry', Rollback, Release])"
        and "list_all is_command cmds"
        and "log_operation entry' = toUpperCase (first_token (trim sql))"
      with assms show ?thesis by (auto simp: issued_def list_all_iff)
    qed
  qed
qed

section \<open>The verdict of the guard\<close>

text \<open>
  Claim C2. For every statement, \<open>checkSQLSecurity\<close> returns the unsafe verdict, with its
  reason, exactly when a word of one of the eight patterns occurs in the statement (the
  patterns read without regard to case), and the safe verdict without a reason otherwise.
\<close>

theorem guard_verdict:
  "checkSQLSecurity sql =
     (if \<exists>p \<in> set dangerousPatterns. occurs_in p sql
      then \<lparr>safe = False, reason = Some injection_message\<rparr>
      else \<lparr>safe = True, reason = None\<rparr>)"
  by (simp add: checkSQLSecurity_def check_patterns_eq regex_test_occurs)

theorem guard_verdict_witness:
  "(\<exists>p \<in> set dangerousPatterns. occurs_in p (js ''SELECT 1; DROP TABLE x'')) \<and>
   checkSQLSecurity (js ''SELECT 1; DROP TABLE x'') =
     \<lparr>safe = False, reason = Some injection_message\<rparr> \<and>
   \<not> (\<exists>p \<in> set dangerousPatterns. occurs_in p (js ''SELECT * FROM t'')) \<and>
   checkSQLSecurity (js ''SELECT * FROM t'') = \<lparr>safe = True, reason = None\<rparr>"
  using guard_verdict [of "js ''SELECT 1; DROP TABLE x''"] guard_verdict [of "js ''SELECT * FROM t''"]
    stacked_drop_unsafe plain_select_safe
  by (metis SQLSecurityCheck.select_convs(1))

section \<open>Releasing the connection\<close>

text \<open>
  Inside the \<open>try\<close>, that is once the checks have passed, every path of every executor
  releases the connection once.
\<close>

lemma commands_hold_no_release: "list_all is_command cmds \<Longrightarrow> count_list cmds Release = 0"
  by (induction cmds) auto

lemma released_once_inside_try:
  assumes "drv_getConnection d tr = None" and "safe (checkSQLSecurity sql)"
  shows "count_list (issued (executeModifyQuery d sql params) tr) Release = 1"
    and "count_list (issued (executeReadOnlyQuery d sql) tr) Release = 1"
    and "length sql \<le> maxQueryLength \<Longrightarrow>
         count_list (issued (executeQuery d sql params) tr) Release = 1"
proof -
  from executeModifyQuery_outcome [OF assms, of params]
  show "count_list (issued (executeModifyQuery d sql params) tr) Release = 1"
    by (elim disjE exE conjE) (simp_all add: issued_def commands_hold_no_release)
  from executeReadOnlyQuery_outcome [OF assms]
  show "count_list (issued (executeReadOnlyQuery d sql) tr) Release = 1"
    by (elim disjE exE conjE) (simp_all add: issued_def commands_hold_no_release)
  assume "length sql \<le> maxQueryLength"
  from executeQuery_accepted [OF assms this, of params]
  show "count_list (issued (executeQuery d sql params) tr) Release = 1"
    by (elim exE conjE) (simp add: issued_def)
qed

text \<open>
  Claim C1 asks for one release on every exit path after the acquisition. Whenever the
  pool hands out a connection, the three executors leave on a rejection by the guard, and
  \<open>executeQuery\<close> on a rejection by the length limit, with the connection acquired and
  never released: the checks stand before the \<open>try\<close> whose \<open>finally\<close> releases.
\<close>

theorem rejection_keeps_connection:
  "executeModifyQuery (d\<lparr>drv_getConnection := (\<lambda>tr. None)\<rparr>) (js ''SELECT 1; DROP TABLE x'') params tr =
     (Inr \<lparr>success = False, affectedRows = None, insertId = None,
            message = Some injection_message\<rparr>, tr @ [Acquire]) \<and>
   executeReadOnlyQuery (d\<lparr>drv_getConnection := (\<lambda>tr. None)\<rparr>) (js ''SELECT 1; DROP TABLE x'') tr =
     (Inl (Error injection_message), tr @ [Acquire]) \<and>
   executeQuery (d\<lparr>drv_getConnection := (\<lambda>tr. None)\<rparr>) (js ''SELECT 1; DROP TABLE x'') params tr =
     (Inl (Error injection_message), tr @ [Acquire]) \<and>
   executeQuery (d\<lparr>drv_getConnection := (\<lambda>tr. None)\<rparr>) long_statement params tr =
     (Inl (Error limit_message), tr @ [Acquire])"
  by (simp add: executeModifyQuery_def executeReadOnlyQuery_def executeQuery_def andThen_def
      getConnectionFromPool_def stacked_drop_unsafe long_statement_safe long_statement_limits)

section \<open>The read-only executor\<close>

text \<open>
  Claim C4. \<open>executeReadOnlyQuery\<close> never sends a commit. When it returns, the events of
  the call are, in this order: the acquisition, \<open>SET SESSION TRANSACTION READ ONLY\<close>, the
  begin of the transaction, the statement, the rollback,
  \<open>SET SESSION TRANSACTION READ WRITE\<close>, the log entry and the release; whatever the
  session was before and whatever the statement did to it, no transaction is open
  afterwards and the session is read-write. When a step fails, the call throws the failure
  of that step, after a rollback.
\<close>

theorem readonly_sequence:
  "(\<forall>c. Commit c \<notin> set (issued (executeReadOnlyQuery d sql) tr)) \<and>
   (\<forall>r. fst (executeReadOnlyQuery d sql tr) = Inr r \<longrightarrow>
      (\<exists>a results c entry.
         issued (executeReadOnlyQuery d sql) tr =
           [Acquire, Query SET_READ_ONLY [] (Inr a), Begin None, Query sql [] (Inr results),
            Rollback, Query SET_READ_WRITE [] (Inr c), Log entry, Release] \<and>
         r = \<lparr>payload = ResultSet results, isError = False\<rparr>) \<and>
      \<not> in_transaction (session_after effect s (issued (executeReadOnlyQuery d sql) tr)) \<and>
      \<not> read_only (session_after effect s (issued (executeReadOnlyQuery d sql) tr))) \<and>
   (\<forall>e. drv_getConnection d tr = None \<and> safe (checkSQLSecurity sql) \<and>
        fst (executeReadOnlyQuery d sql tr) = Inl e \<longrightarrow>
      (\<exists>cmds entry.
         issued (executeReadOnlyQuery d sql) tr = Acquire # cmds @ [Log entry, Rollback, Release] \<and>
         cmds \<noteq> [] \<and> failed_with e (last cmds)))"
proof (cases "drv_getConnection d tr")
  case (Some e)
  then show ?thesis
    by (simp add: executeReadOnlyQuery_unacquired issued_def)
next
  case None
  note acquired = this
  show ?thesis
  proof (cases "safe (checkSQLSecurity sql)")
    case False
    with acquired show ?thesis
      by (simp add: executeReadOnlyQuery_rejected issued_def)
  next
    case True
    from executeReadOnlyQuery_outcome [OF acquired True] show ?thesis
    proof (elim disjE exE conjE)
      fix a results c entry
      assume "executeReadOnlyQuery d sql tr =
         (Inr \<lparr>payload = ResultSet results, isError = False\<rparr>,
          tr @ [Acquire, Query SET_READ_ONLY [] (Inr a), Begin None, Query sql [] (Inr results),
                Rollback, Query SET_READ_WRITE [] (Inr c), Log entry, Release])"
      then have "fst (executeReadOnlyQuery d sql tr) = Inr \<lparr>payload = ResultSet results, isError = False\<rparr>"
        and "issued (executeReadOnlyQuery d sql) tr =
           [Acquire, Query SET_READ_ONLY [] (Inr a), Begin None, Query sql [] (Inr results),
            Rollback, Query SET_READ_WRITE [] (Inr c), Log entry, Release]"
        by (simp_all add: issued_def)
      then show ?thesis
        by (simp add: session_after_readonly)
    next
      fix e cmds entry
      assume "executeReadOnlyQuery d sql tr =
         (Inl e, tr @ Acquire # cmds @ [Log entry, Rollback, Release])"
        and cmds: "cmds \<noteq> []" "failed_with e (last cmds)" "\<forall>c. Commit c \<notin> set cmds"
      then have "fst (executeReadOnlyQuery d sql tr) = Inl e"
        and "issued (executeReadOnlyQuery d sql) tr = Acquire # cmds @ [Log entry, Rollback, Release]"
        by (simp_all add: issued_def)
      with cmds show ?thesis
        by simp
    qed
  qed
qed

theorem readonly_sequence_witness:
  "fst (executeReadOnlyQuery quiet_driver (js ''SELECT * FROM t'') []) =
     Inr \<lparr>payload = ResultSet (Rows []), isError = False\<rparr> \<and>
   \<not> in_transaction (session_after (\<lambda>sql s. s) \<lparr>in_transaction = True, read_only = True\<rparr>
       (issued (executeReadOnlyQuery quiet_driver (js ''SELECT * FROM t'')) [])) \<and>
   \<not> read_only (session_after (\<lambda>sql s. s) \<lparr>in_transaction = True, read_only = True\<rparr>
       (issued (executeReadOnlyQuery quiet_driver (js ''SELECT * FROM t'')) [])) \<and>
   drv_getConnection failing_driver [] = None \<and>
   safe (checkSQLSecurity (js ''SELECT * FROM t'')) \<and>
   fst (executeReadOnlyQuery failing_driver (js ''SELECT * FROM t'') []) =
     Inl (Error (js ''ER_DUP_ENTRY'')) \<and>
   (\<exists>cmds entry.
      issued (executeReadOnlyQuery failing_driver (js ''SELECT * FROM t'')) [] =
        Acquire # cmds @ [Log entry, Rollback, Release] \<and>
      cmds \<noteq> [] \<and> failed_with (Error (js ''ER_DUP_ENTRY'')) (last cmds))"
proof -
  have ok: "fst (executeReadOnlyQuery quiet_driver (js ''SELECT * FROM t'') []) =
     Inr \<lparr>payload = ResultSet (Rows []), isError = False\<rparr>"
    by (simp add: quiet_readonly)
  have acquired: "drv_getConnection failing_driver [] = None"
    by (simp add: failing_driver_def quiet_driver_def)
  have accepted: "safe (checkSQLSecurity (js ''SELECT * FROM t''))"
    by (simp add: plain_select_safe)
  have failed: "fst (executeReadOnlyQuery failing_driver (js ''SELECT * FROM t'') []) =
     Inl (Error (js ''ER_DUP_ENTRY''))"
    by (simp add: failing_readonly)
  from readonly_sequence [of quiet_driver "js ''SELECT * FROM t''" "[]" "\<lambda>sql s. s"
      "\<lparr>in_transaction = True, read_only = True\<rparr>"] ok
    readonly_sequence [of failing_driver "js ''SELECT * FROM t''" "[]"] acquired accepted failed
  show ?thesis by blast
qed

section \<open>The modify executor\<close>

text \<open>
  What the modify executor does for a statement the guard accepts, on a connection the
  pool handed out: it never throws; when the begin and the statement succeed it sends
  \<open>COMMIT\<close> and returns success with \<open>affectedRows\<close>, \<open>insertId\<close> and \<open>message\<close> of the
  driver's result, whatever the server answers to \<open>COMMIT\<close>; when the begin or the
  statement fails it sends no \<open>COMMIT\<close>, rolls back and returns \<open>success = False\<close> with the
  message of the failure.
\<close>

lemma modify_outcomes:
  assumes "drv_getConnection d tr = None" and "safe (checkSQLSecurity sql)"
  shows "\<exists>r. fst (executeModifyQuery d sql params tr) = Inr r \<and>
    (if success r
     then \<exists>res c entry.
            issued (executeModifyQuery d sql params) tr =
              [Acquire, Begin None, Query sql params (Inr res), Commit c, Log entry, Release] \<and>
            c = drv_commit d (tr @ [Acquire, Begin None, Query sql params (Inr res)]) \<and>
            r = \<lparr>success = True, affectedRows = result_affectedRows res,
                  insertId = result_insertId res, message = result_message res\<rparr>
     else \<exists>cmds e entry.
            issued (executeModifyQuery d sql params) tr =
              Acquire # cmds @ [Log entry, Rollback, Release] \<and>
            cmds \<noteq> [] \<and> failed_with e (last cmds) \<and> (\<forall>c. Commit c \<notin> set cmds) \<and>
            r = \<lparr>success = False, affectedRows = None, insertId = None,
                  message = Some (error_message e)\<rparr>)"
  using executeModifyQuery_outcome [OF assms, of params]
proof (elim disjE exE conjE)
  fix res c entry
  assume "executeModifyQuery d sql params tr =
       (Inr \<lparr>success = True, affectedRows = result_affectedRows res,
              insertId = result_insertId res, message = result_message res\<rparr>,
        tr @ [Acquire, Begin None, Query sql params (Inr res), Commit c, Log entry, Release])"
    and c: "c = drv_commit d (tr @ [Acquire, Begin None, Query sql params (Inr res)])"
  then have "fst (executeModifyQuery d sql params tr) =
       Inr \<lparr>success = True, affectedRows = result_affectedRows res,
             insertId = result_insertId res, message = result_message res\<rparr>"
    and "issued (executeModifyQuery d sql params) tr =
       [Acquire, Begin None, Query sql params (Inr res), Commit c, Log entry, Release]"
    by (simp_all add: issued_def)
  with c show ?thesis by simp
next
  fix e cmds entry
  assume "executeModifyQuery d sql params tr =
       (Inr \<lparr>success = False, affectedRows = None, insertId = None,
              message = Some (error_message e)\<rparr>,
        tr @ Acquire # cmds @ [Log entry, Rollback, Release])"
    and cmds: "cmds \<noteq> []" "failed_with e (last cmds)" "\<forall>c. Commit c \<notin> set cmds"
  then have "fst (executeModifyQuery d sql params tr) =
       Inr \<lparr>success = False, affectedRows = None, insertId = None,
             message = Some (error_message e)\<rparr>"
    and "issued (executeModifyQuery d sql params) tr = Acquire # cmds @ [Log entry, Rollback, Release]"
    by (simp_all add: issued_def)
  with cmds show ?thesis by (simp del: append.simps; blast?)
qed

text \<open>
  Claim C5 asks for a rollback and for \<open>success = False\<close> on any failure during the
  transaction. When the server refuses the \<open>COMMIT\<close> of an insert, the modify executor
  returns success with the affected rows, logs a success and sends no rollback: it never
  looks at the answer to \<open>COMMIT\<close>.
\<close>

theorem commit_failure_unnoticed:
  "executeModifyQuery commit_failing_driver (js ''INSERT INTO t VALUES (1)'') [] [] =
     (Inr \<lparr>success = True, affectedRows = Some 1, insertId = Some 7, message = Some []\<rparr>,
      [Acquire, Begin None, Query (js ''INSERT INTO t VALUES (1)'') [] (Inr (OkPacket 1 7 [])),
       Commit (Some (Error (js ''ER_LOCK_DEADLOCK''))),
       Log \<lparr>log_timestamp = 0, log_operation = js ''INSERT'',
            log_sql = js ''INSERT INTO t VALUES (1)'', log_params = [], log_duration = 0,
            log_success = True, log_error = None, log_affectedRows = Some 1\<rparr>,
       Release])"
  by (simp add: executeModifyQuery_eq insert_safe withPerformanceMonitoring_eq
      modify_action_eq quiet_driver_def writing_driver_def commit_failing_driver_def)
    (simp add: js_def toUpperCase_def first_token_def trim_def is_whitespace_def upper_unit_def)

section \<open>The length limit on \<open>mysql_query\<close>\<close>

text \<open>
  Claim C7 asks \<open>mysql_query\<close> to fail on a statement over the length limit. The
  read-only executor never calls \<open>checkQueryLimits\<close>: a statement of 4097 code units
  that the guard accepts is sent to the database.
\<close>

theorem long_query_executed:
  "length long_statement > maxQueryLength \<and>
   callTool quiet_driver (mysql_query long_statement) [] =
     (Inr \<lparr>payload = ResultSet (Rows []), isError = False\<rparr>,
      [Acquire, Query SET_READ_ONLY [] (Inr (Rows [])), Begin None,
       Query long_statement [] (Inr (Rows [])), Rollback,
       Query SET_READ_WRITE [] (Inr (Rows [])),
       Log \<lparr>log_timestamp = 0, log_operation = SELECT, log_sql = long_statement,
            log_params = [], log_duration = 0, log_success = True, log_error = None,
            log_affectedRows = None\<rparr>,
       Release])"
  by (simp add: callTool_def executeReadOnlyQuery_eq long_statement_safe long_statement_length
      maxQueryLength_def withPerformanceMonitoring_eq readonly_action_eq quiet_driver_def)

section \<open>What the instrumentation logs\<close>

text \<open>
  Claim C8 says that every failure, a rejection by the guard included, is logged before it
  is surfaced. A rejection by the guard is not: the read-only executor throws it with no
  log entry in the trace.
\<close>

theorem guard_rejection_not_logged:
  "fst (executeReadOnlyQuery quiet_driver (js ''SELECT 1; DROP TABLE x'') []) =
     Inl (Error injection_message) \<and>
   filter is_log (snd (executeReadOnlyQuery quiet_driver (js ''SELECT 1; DROP TABLE x'') [])) = []"
  by (simp add: executeReadOnlyQuery_rejected stacked_drop_unsafe quiet_driver_def)

text \<open>
  Claim C8, amended. \<open>withPerformanceMonitoring\<close> returns or throws what its action
  returns or throws, and adds exactly one log entry after the events of the action, with
  the duration, the operation, the statement, the parameters, the outcome and the message
  of the failure. Hence a failure of a database step, in any of the three executors, is
  logged before the executor surfaces it.
\<close>

theorem instrumentation_logs_failures:
  "fst (withPerformanceMonitoring d affected operation sql params action tr) = fst (action tr) \<and>
   (\<exists>entry.
      snd (withPerformanceMonitoring d affected operation sql params action tr) =
        snd (action tr) @ [Log entry] \<and>
      log_duration entry = elapsed d tr (snd (action tr)) \<and>
      log_operation entry = operation \<and> log_sql entry = sql \<and> log_params entry = params \<and>
      log_success entry = (case fst (action tr) of Inl e \<Rightarrow> False | Inr r \<Rightarrow> True) \<and>
      log_error entry =
        (case fst (action tr) of Inl e \<Rightarrow> Some (error_message e) | Inr r \<Rightarrow> None)) \<and>
   (\<forall>e. drv_getConnection d tr = None \<and> safe (checkSQLSecurity sql) \<and>
        length sql \<le> maxQueryLength \<and> fst (executeQuery d sql params tr) = Inl e \<longrightarrow>
      (\<exists>entry.
         issued (executeQuery d sql params) tr =
           [Acquire, Query sql params (Inl e), Log entry, Release] \<and>
         \<not> log_success entry \<and> log_error entry = Some (error_message e))) \<and>
   (\<forall>e. drv_getConnection d tr = None \<and> safe (checkSQLSecurity sql) \<and>
        fst (executeReadOnlyQuery d sql tr) = Inl e \<longrightarrow>
      (\<exists>cmds entry.
         issued (executeReadOnlyQuery d sql) tr = Acquire # cmds @ [Log entry, Rollback, Release] \<and>
         list_all is_command cmds \<and> failed_with e (last cmds) \<and>
         \<not> log_success entry \<and> log_error entry = Some (error_message e))) \<and>
   (\<forall>r. drv_getConnection d tr = None \<and> safe (checkSQLSecurity sql) \<and>
        fst (executeModifyQuery d sql params tr) = Inr r \<and> \<not> success r \<longrightarrow>
      (\<exists>cmds entry.
         issued (executeModifyQuery d sql params) tr =
           Acquire # cmds @ [Log entry, Rollback, Release] \<and>
         list_all is_command cmds \<and>
         \<not> log_success entry \<and> log_error entry = message r))"
proof (intro conjI allI impI)
  show "fst (withPerformanceMonitoring d affected operation sql params action tr) = fst (action tr)"
    by (simp add: withPerformanceMonitoring_eq)
next
  show "\<exists>entry.
      snd (withPerformanceMonitoring d affected operation sql params action tr) =
        snd (action tr) @ [Log entry] \<and>
      log_duration entry = elapsed d tr (snd (action tr)) \<and>
      log_operation entry = operation \<and> log_sql entry = sql \<and> log_params entry = params \<and>
      log_success entry = (case fst (action tr) of Inl e \<Rightarrow> False | Inr r \<Rightarrow> True) \<and>
      log_error entry =
        (case fst (action tr) of Inl e \<Rightarrow> Some (error_message e) | Inr r \<Rightarrow> None)"
    by (simp add: withPerformanceMonitoring_eq)
next
  fix e
  assume h: "drv_getConnection d tr = None \<and> safe (checkSQLSecurity sql) \<and>
        length sql \<le> maxQueryLength \<and> fst (executeQuery d sql params tr) = Inl e"
  then obtain entry where
    run: "executeQuery d sql params tr =
      (drv_query d (tr @ [Acquire]) sql params,
       tr @ [Acquire, Query sql params (drv_query d (tr @ [Acquire]) sql params), Log entry, Release])"
    and entry: "log_success entry =
        (case drv_query d (tr @ [Acquire]) sql params of Inl e \<Rightarrow> False | Inr r \<Rightarrow> True)"
      "log_error entry =
        (case drv_query d (tr @ [Acquire]) sql params of Inl e \<Rightarrow> Some (error_message e) | Inr r \<Rightarrow> None)"
    using executeQuery_accepted [of d tr sql params] by blast
  from run h have "drv_query d (tr @ [Acquire]) sql params = Inl e" by simp
  with run entry show "\<exists>entry.
         issued (executeQuery d sql params) tr =
           [Acquire, Query sql params (Inl e), Log entry, Release] \<and>
         \<not> log_success entry \<and> log_error entry = Some (error_message e)"
    by (simp add: issued_def)
next
  fix e
  assume h: "drv_getConnection d tr = None \<and> safe (checkSQLSecurity sql) \<and>
        fst (executeReadOnlyQuery d sql tr) = Inl e"
  then have acquired: "drv_getConnection d tr = None" and accepted: "safe (checkSQLSecurity sql)"
    and failed: "fst (executeReadOnlyQuery d sql tr) = Inl e"
    by simp_all
  from executeReadOnlyQuery_outcome [OF acquired accepted]
  show "\<exists>cmds entry.
         issued (executeReadOnlyQuery d sql) tr = Acquire # cmds @ [Log entry, Rollback, Release] \<and>
         list_all is_command cmds \<and> failed_with e (last cmds) \<and>
         \<not> log_success entry \<and> log_error entry = Some (error_message e)"
  proof (elim disjE exE conjE)
    fix a results c entry
    assume "executeReadOnlyQuery d sql tr =
         (Inr \<lparr>payload = ResultSet results, isError = False\<rparr>,
          tr @ [Acquire, Query SET_READ_ONLY [] (Inr a), Begin None, Query sql [] (Inr results),
                Rollback, Query SET_READ_WRITE [] (Inr c), Log entry, Release])"
    with failed show ?thesis by simp
  next
    fix e' cmds entry
    assume run: "executeReadOnlyQuery d sql tr =
         (Inl e', tr @ Acquire # cmds @ [Log entry, Rollback, Release])"
      and cmds: "list_all is_command cmds" "failed_with e' (last cmds)"
      and entry: "\<not> log_success entry" "log_error entry = Some (error_message e')"
    from run failed have "e' = e" by simp
    moreover from run have
      "issued (executeReadOnlyQuery d sql) tr = Acquire # cmds @ [Log entry, Rollback, Release]"
      by (simp add: issued_def)
    ultimately show ?thesis using cmds entry by blast
  qed
next
  fix r
  assume h: "drv_getConnection d tr = None \<and> safe (checkSQLSecurity sql) \<and>
        fst (executeModifyQuery d sql params tr) = Inr r \<and> \<not> success r"
  then have acquired: "drv_getConnection d tr = None" and accepted: "safe (checkSQLSecurity sql)"
    and failed: "fst (executeModifyQuery d sql params tr) = Inr r" "\<not> success r"
    by simp_all
  from executeModifyQuery_outcome [OF acquired accepted, of params]
  show "\<exists>cmds entry.
         issued (executeModifyQuery d sql params) tr =
           Acquire # cmds @ [Log entry, Rollback, Release] \<and>
         list_all is_command cmds \<and>
         \<not> log_success entry \<and> log_error entry = message r"
  proof (elim disjE exE conjE)
    fix res c entry
    assume "executeModifyQuery d sql params tr =
       (Inr \<lparr>success = True, affectedRows = result_affectedRows res,
              insertId = result_insertId res, message = result_message res\<rparr>,
        tr @ [Acquire, Begin None, Query sql params (Inr res), Commit c, Log entry, Release])"
    with failed show ?thesis by auto
  next
    fix e cmds entry
    assume run: "executeModifyQuery d sql params tr =
       (Inr \<lparr>success = False, affectedRows = None, insertId = None,
              message = Some (error_message e)\<rparr>,
        tr @ Acquire # cmds @ [Log entry, Rollback, Release])"
      and cmds: "list_all is_command cmds"
      and entry: "\<not> log_success entry" "log_error entry = Some (error_message e)"
    from run failed have "message r = Some (error_message e)" by auto
    moreover from run have
      "issued (executeModifyQuery d sql params) tr = Acquire # cmds @ [Log entry, Rollback, Release]"
      by (simp add: issued_def)
    ultimately show ?thesis using cmds entry by auto
  qed
qed

theorem instrumentation_logs_failures_witness:
  "drv_getConnection failing_driver [] = None \<and>
   safe (checkSQLSecurity (js ''SELECT * FROM t'')) \<and>
   length (js ''SELECT * FROM t'') \<le> maxQueryLength \<and>
   fst (executeQuery failing_driver (js ''SELECT * FROM t'') [] []) =
     Inl (Error (js ''ER_DUP_ENTRY'')) \<and>
   (\<exists>entry.
      issued (executeQuery failing_driver (js ''SELECT * FROM t'') []) [] =
        [Acquire, Query (js ''SELECT * FROM t'') [] (Inl (Error (js ''ER_DUP_ENTRY''))),
         Log entry, Release] \<and>
      \<not> log_success entry \<and> log_error entry = Some (js ''ER_DUP_ENTRY'')) \<and>
   fst (executeReadOnlyQuery failing_driver (js ''SELECT * FROM t'') []) =
     Inl (Error (js ''ER_DUP_ENTRY'')) \<and>
   (\<exists>cmds entry.
      issued (executeReadOnlyQuery failing_driver (js ''SELECT * FROM t'')) [] =
        Acquire # cmds @ [Log entry, Rollback, Release] \<and>
      \<not> log_success entry \<and> log_error entry = Some (js ''ER_DUP_ENTRY'')) \<and>
   safe (checkSQLSecurity (js ''INSERT INTO t VALUES (1)'')) \<and>
   fst (executeModifyQuery failing_driver (js ''INSERT INTO t VALUES (1)'') [] []) =
     Inr \<lparr>success = False, affectedRows = None, insertId = None,
          message = Some (js ''ER_DUP_ENTRY'')\<rparr> \<and>
   (\<exists>cmds entry.
      issued (executeModifyQuery failing_driver (js ''INSERT INTO t VALUES (1)'') []) [] =
        Acquire # cmds @ [Log entry, Rollback, Release] \<and>
      \<not> log_success entry \<and> log_error entry = Some (js ''ER_DUP_ENTRY''))"
proof -
  have acquired: "drv_getConnection failing_driver [] = None"
    by (simp add: failing_driver_def quiet_driver_def)
  have select_ok: "safe (checkSQLSecurity (js ''SELECT * FROM t''))"
    by (simp add: plain_select_safe)
  have insert_ok: "safe (checkSQLSecurity (js ''INSERT INTO t VALUES (1)''))"
    by (simp add: insert_safe)
  have short: "length (js ''SELECT * FROM t'') \<le> maxQueryLength"
    by (simp add: length_js maxQueryLength_def)
  have q: "fst (executeQuery failing_driver (js ''SELECT * FROM t'') [] []) =
     Inl (Error (js ''ER_DUP_ENTRY''))"
    by (simp add: failing_query)
  have r: "fst (executeReadOnlyQuery failing_driver (js ''SELECT * FROM t'') []) =
     Inl (Error (js ''ER_DUP_ENTRY''))"
    by (simp add: failing_readonly)
  have m: "fst (executeModifyQuery failing_driver (js ''INSERT INTO t VALUES (1)'') [] []) =
     Inr \<lparr>success = False, affectedRows = None, insertId = None,
          message = Some (js ''ER_DUP_ENTRY'')\<rparr>"
    by (simp add: failing_modify)
  note select_case =
    instrumentation_logs_failures [of failing_driver result_affectedRows SELECT
      "js ''SELECT * FROM t''" "[]" "executeQueryWithConnection failing_driver (js ''SELECT * FROM t'') []" "[]"]
  note insert_case =
    instrumentation_logs_failures [of failing_driver result_affectedRows SELECT
      "js ''INSERT INTO t VALUES (1)''" "[]"
      "executeQueryWithConnection failing_driver (js ''INSERT INTO t VALUES (1)'') []" "[]"]
  from select_case acquired select_ok short q
  have logged_q: "\<exists>entry.
      issued (executeQuery failing_driver (js ''SELECT * FROM t'') []) [] =
        [Acquire, Query (js ''SELECT * FROM t'') [] (Inl (Error (js ''ER_DUP_ENTRY''))),
         Log entry, Release] \<and>
      \<not> log_success entry \<and> log_error entry = Some (js ''ER_DUP_ENTRY'')"
    by (elim conjE) (drule spec [of _ "Error (js ''ER_DUP_ENTRY'')"], simp)
  from select_case acquired select_ok r
  have logged_r: "\<exists>cmds entry.
      issued (executeReadOnlyQuery failing_driver (js ''SELECT * FROM t'')) [] =
        Acquire # cmds @ [Log entry, Rollback, Release] \<and>
      \<not> log_success entry \<and> log_error entry = Some (js ''ER_DUP_ENTRY'')"
    by (elim conjE) (drule spec [of "\<lambda>e. _ e \<longrightarrow> (\<exists>cmds. _ e cmds)" "Error (js ''ER_DUP_ENTRY'')"], auto)
  from insert_case acquired insert_ok m
  have logged_m: "\<exists>cmds entry.
      issued (executeModifyQuery failing_driver (js ''INSERT INTO t VALUES (1)'') []) [] =
        Acquire # cmds @ [Log entry, Rollback, Release] \<and>
      \<not> log_success entry \<and> log_error entry = Some (js ''ER_DUP_ENTRY'')"
    by (elim conjE) (drule spec [of "\<lambda>r. _ r \<longrightarrow> (\<exists>cmds entry. _ r cmds entry)" "\<lparr>success = False, affectedRows = None, insertId = None,
          message = Some (js ''ER_DUP_ENTRY'')\<rparr>"], auto)
  from acquired select_ok insert_ok short q r m logged_q logged_r logged_m
  show ?thesis by (intro conjI)
qed

section \<open>The length limit of the generic executor\<close>

text \<open>
  Claim C9 says that a statement over the length limit is rejected before any connection
  is acquired. \<open>executeQuery\<close> acquires the connection first and checks afterwards.
\<close>

theorem limit_rejection_after_acquisition:
  "executeQuery quiet_driver long_statement [] [] = (Inl (Error limit_message), [Acquire])"
  by (simp add: executeQuery_too_long long_statement_safe long_statement_length
      maxQueryLength_def quiet_driver_def)

text \<open>
  Claim C9, amended. For a statement over the length limit \<open>executeQuery\<close> always
  throws, and sends no command over the connection. When the pool hands out a connection,
  the connection has been acquired by then, and the failure is the one of the limit, or
  the one of the guard when a pattern matches as well.
\<close>

theorem limit_rejection_before_database:
  assumes "length sql > maxQueryLength"
  shows "(\<exists>e. fst (executeQuery d sql params tr) = Inl e) \<and>
    filter is_command (issued (executeQuery d sql params) tr) = [] \<and>
    (drv_getConnection d tr = None \<longrightarrow>
       Acquire \<in> set (issued (executeQuery d sql params) tr) \<and>
       fst (executeQuery d sql params tr) =
         Inl (Error (if safe (checkSQLSecurity sql) then limit_message else injection_message)))"
proof (cases "drv_getConnection d tr")
  case (Some e)
  then show ?thesis by (simp add: executeQuery_unacquired issued_def)
next
  case None
  show ?thesis
  proof (cases "safe (checkSQLSecurity sql)")
    case True
    with None assms show ?thesis by (simp add: executeQuery_too_long issued_def)
  next
    case False
    with None show ?thesis by (simp add: executeQuery_rejected issued_def unsafe_reason)
  qed
qed

theorem limit_rejection_before_database_witness:
  "length long_statement > maxQueryLength \<and>
   drv_getConnection quiet_driver [] = None \<and>
   fst (executeQuery quiet_driver long_statement [] []) = Inl (Error limit_message) \<and>
   filter is_command (issued (executeQuery quiet_driver long_statement []) []) = []"
proof -
  have long: "length long_statement > maxQueryLength"
    by (simp add: long_statement_length maxQueryLength_def)
  have acquired: "drv_getConnection quiet_driver [] = None"
    by (simp add: quiet_driver_def)
  from limit_rejection_before_database [OF long, of quiet_driver "[]" "[]"] long acquired
  show ?thesis by (simp add: long_statement_safe)
qed

section \<open>The catalogue is read for the current database only\<close>

text \<open>
  Claim C3. On a server with any number of schemas, which answers each statement from its
  text, whatever \<open>list_tables\<close>, \<open>describe_table\<close>, the listing of the resources and the
  reading of a resource return is made of the catalogue rows of the current database and
  of no other schema: the tables whose schema is \<open>DATABASE()\<close>, the columns of the named
  table in that schema. The only statements these four operations send are the two
  catalogue statements.
\<close>

theorem catalog_scoped_to_current_database:
  "(\<forall>r. fst (callTool (connected_to srv d) list_tables tr) = Inr r \<longrightarrow>
        payload r = ResultSet (Rows (tables_rows srv))) \<and>
   (\<forall>t r. fst (callTool (connected_to srv d) (describe_table t) tr) = Inr r \<longrightarrow>
        (\<exists>tn. t = Some tn \<and> payload r = ResultSet (Rows (columns_rows srv (Str tn))))) \<and>
   (\<forall>rs. fst (listResources (connected_to srv d) host_port tr) = Inr rs \<longrightarrow>
        map_throwing (table_resource (connected_to srv d) host_port) (tables_rows srv) = Inr rs) \<and>
   (\<forall>u c. fst (readResource (connected_to srv d) u tr) = Inr c \<longrightarrow>
        (\<exists>p. contents c = Rows (columns_rows srv p))) \<and>
   (\<forall>row \<in> set (tables_rows srv). \<exists>s t.
        (s, t) \<in> set (tables srv) \<and> current_database srv = Some s \<and>
        row = [(js ''table_name'', Str t)]) \<and>
   (\<forall>p. \<forall>row \<in> set (columns_rows srv p). \<exists>s t c ty.
        (s, t, c, ty) \<in> set (columns srv) \<and> current_database srv = Some s \<and> p = Str t \<and>
        row = [(js ''column_name'', Str c), (js ''data_type'', Str ty)]) \<and>
   (\<forall>q ps ans.
        Query q ps ans \<in> set (issued (callTool (connected_to srv d) list_tables) tr) \<or>
        Query q ps ans \<in> set (issued (listResources (connected_to srv d) host_port) tr)
        \<longrightarrow> q = TABLES_QUERY) \<and>
   (\<forall>q ps ans t u.
        Query q ps ans \<in> set (issued (callTool (connected_to srv d) (describe_table t)) tr) \<or>
        Query q ps ans \<in> set (issued (readResource (connected_to srv d) u) tr)
        \<longrightarrow> q = COLUMN_METADATA_QUERY)"
proof (intro conjI)
  show "\<forall>r. fst (callTool (connected_to srv d) list_tables tr) = Inr r \<longrightarrow>
        payload r = ResultSet (Rows (tables_rows srv))"
    by (blast dest: list_tables_rows)
  show "\<forall>t r. fst (callTool (connected_to srv d) (describe_table t) tr) = Inr r \<longrightarrow>
        (\<exists>tn. t = Some tn \<and> payload r = ResultSet (Rows (columns_rows srv (Str tn))))"
    by (blast dest: describe_table_rows)
  show "\<forall>rs. fst (listResources (connected_to srv d) host_port tr) = Inr rs \<longrightarrow>
        map_throwing (table_resource (connected_to srv d) host_port) (tables_rows srv) = Inr rs"
    by (blast dest: listResources_rows)
  show "\<forall>u c. fst (readResource (connected_to srv d) u tr) = Inr c \<longrightarrow>
        (\<exists>p. contents c = Rows (columns_rows srv p))"
    by (blast dest: readResource_rows)
  show "\<forall>row \<in> set (tables_rows srv). \<exists>s t.
        (s, t) \<in> set (tables srv) \<and> current_database srv = Some s \<and>
        row = [(js ''table_name'', Str t)]"
    by (auto simp: tables_rows_def)
  show "\<forall>p. \<forall>row \<in> set (columns_rows srv p). \<exists>s t c ty.
        (s, t, c, ty) \<in> set (columns srv) \<and> current_database srv = Some s \<and> p = Str t \<and>
        row = [(js ''column_name'', Str c), (js ''data_type'', Str ty)]"
    by (auto simp: columns_rows_def)
  show "\<forall>q ps ans.
        Query q ps ans \<in> set (issued (callTool (connected_to srv d) list_tables) tr) \<or>
        Query q ps ans \<in> set (issued (listResources (connected_to srv d) host_port) tr)
        \<longrightarrow> q = TABLES_QUERY"
    by (blast dest: list_tables_queries listResources_queries)
  show "\<forall>q ps ans t u.
        Query q ps ans \<in> set (issued (callTool (connected_to srv d) (describe_table t)) tr) \<or>
        Query q ps ans \<in> set (issued (readResource (connected_to srv d) u) tr)
        \<longrightarrow> q = COLUMN_METADATA_QUERY"
    by (blast dest: describe_table_queries readResource_queries)
qed

theorem catalog_scoped_to_current_database_witness:
  "fst (callTool (connected_to example_server quiet_driver) list_tables []) =
     Inr \<lparr>payload = ResultSet (Rows [[(js ''table_name'', Str (js ''orders''))]]),
          isError = False\<rparr> \<and>
   ResultSet (Rows [[(js ''table_name'', Str (js ''orders''))]]) =
     ResultSet (Rows (tables_rows example_server)) \<and>
   fst (callTool (connected_to example_server quiet_driver)
          (describe_table (Some (js ''salaries''))) []) =
     Inr \<lparr>payload = ResultSet (Rows []), isError = False\<rparr> \<and>
   (\<exists>tn. Some (js ''salaries'') = Some tn \<and>
      ResultSet (Rows []) = ResultSet (Rows (columns_rows example_server (Str tn)))) \<and>
   fst (listResources (connected_to archive_server quiet_driver) (js ''127.0.0.1:3306'') []) =
     Inr [] \<and>
   map_throwing (table_resource (connected_to archive_server quiet_driver) (js ''127.0.0.1:3306''))
       (tables_rows archive_server) =
     Inr [] \<and>
   fst (readResource (connected_to example_server quiet_driver)
          (js ''mysql://db/orders/schema'') []) =
     Inr \<lparr>contents_uri = js ''mysql://db/orders/schema'',
          contents_mimeType = js ''application/json'',
          contents = Rows [[(js ''column_name'', Str (js ''id'')),
                            (js ''data_type'', Str (js ''int''))]]\<rparr> \<and>
   (\<exists>p. Rows [[(js ''column_name'', Str (js ''id'')), (js ''data_type'', Str (js ''int''))]] =
        Rows (columns_rows example_server p)) \<and>
   [(js ''table_name'', Str (js ''orders''))] \<in> set (tables_rows example_server) \<and>
   (\<exists>s t. (s, t) \<in> set (tables example_server) \<and> current_database example_server = Some s \<and>
      [(js ''table_name'', Str (js ''orders''))] = [(js ''table_name'', Str t)]) \<and>
   [(js ''column_name'', Str (js ''id'')), (js ''data_type'', Str (js ''int''))]
     \<in> set (columns_rows example_server (Str (js ''orders''))) \<and>
   (\<exists>s t c ty. (s, t, c, ty) \<in> set (columns example_server) \<and>
      current_database example_server = Some s \<and> Str (js ''orders'') = Str t \<and>
      [(js ''column_name'', Str (js ''id'')), (js ''data_type'', Str (js ''int''))] =
        [(js ''column_name'', Str c), (js ''data_type'', Str ty)]) \<and>
   Query TABLES_QUERY [] (Inr (Rows [[(js ''table_name'', Str (js ''orders''))]]))
     \<in> set (issued (callTool (connected_to example_server quiet_driver) list_tables) []) \<and>
   Query COLUMN_METADATA_QUERY [Str (js ''orders'')]
       (Inr (Rows [[(js ''column_name'', Str (js ''id'')), (js ''data_type'', Str (js ''int''))]]))
     \<in> set (issued (readResource (connected_to example_server quiet_driver)
                       (js ''mysql://db/orders/schema'')) [])"
proof -
  note inst = catalog_scoped_to_current_database
    [of example_server quiet_driver "[]" "js ''127.0.0.1:3306''"]
  note archive = catalog_scoped_to_current_database
    [of archive_server quiet_driver "[]" "js ''127.0.0.1:3306''"]
  note tables_part = inst [THEN conjunct1, rule_format]
  note columns_part = inst [THEN conjunct2, THEN conjunct1, rule_format]
  note resources_part = archive [THEN conjunct2, THEN conjunct2, THEN conjunct1, rule_format]
  note contents_part =
    inst [THEN conjunct2, THEN conjunct2, THEN conjunct2, THEN conjunct1, rule_format]
  note table_rows_part =
    inst [THEN conjunct2, THEN conjunct2, THEN conjunct2, THEN conjunct2, THEN conjunct1,
      rule_format]
  note column_rows_part =
    inst [THEN conjunct2, THEN conjunct2, THEN conjunct2, THEN conjunct2, THEN conjunct2,
      THEN conjunct1, rule_format]
  have listed: "fst (callTool (connected_to example_server quiet_driver) list_tables []) =
     Inr \<lparr>payload = ResultSet (Rows [[(js ''table_name'', Str (js ''orders''))]]),
          isError = False\<rparr>"
    by (simp add: example_list_tables)
  have described: "fst (callTool (connected_to example_server quiet_driver)
          (describe_table (Some (js ''salaries''))) []) =
     Inr \<lparr>payload = ResultSet (Rows []), isError = False\<rparr>"
    by (rule example_describe_other_schema)
  have resources:
    "fst (listResources (connected_to archive_server quiet_driver) (js ''127.0.0.1:3306'') []) =
     Inr []"
    by (simp add: archive_list_resources)
  have read: "fst (readResource (connected_to example_server quiet_driver)
          (js ''mysql://db/orders/schema'') []) =
     Inr \<lparr>contents_uri = js ''mysql://db/orders/schema'',
          contents_mimeType = js ''application/json'',
          contents = Rows [[(js ''column_name'', Str (js ''id'')),
                            (js ''data_type'', Str (js ''int''))]]\<rparr>"
    by (simp add: example_read_resource)
  have table_row: "[(js ''table_name'', Str (js ''orders''))] \<in> set (tables_rows example_server)"
    by (simp add: example_tables_rows)
  have column_row: "[(js ''column_name'', Str (js ''id'')), (js ''data_type'', Str (js ''int''))]
     \<in> set (columns_rows example_server (Str (js ''orders'')))"
    by (simp add: example_columns_rows)
  have sent_tables: "Query TABLES_QUERY [] (Inr (Rows [[(js ''table_name'', Str (js ''orders''))]]))
     \<in> set (issued (callTool (connected_to example_server quiet_driver) list_tables) [])"
    by (simp add: issued_def example_list_tables)
  have sent_columns: "Query COLUMN_METADATA_QUERY [Str (js ''orders'')]
       (Inr (Rows [[(js ''column_name'', Str (js ''id'')), (js ''data_type'', Str (js ''int''))]]))
     \<in> set (issued (readResource (connected_to example_server quiet_driver)
                       (js ''mysql://db/orders/schema'')) [])"
    by (simp add: issued_def example_read_resource)
  from tables_part [OF listed] have a: "ResultSet (Rows [[(js ''table_name'', Str (js ''orders''))]]) =
     ResultSet (Rows (tables_rows example_server))"
    by simp
  from columns_part [OF described] have b: "\<exists>tn. Some (js ''salaries'') = Some tn \<and>
      ResultSet (Rows []) = ResultSet (Rows (columns_rows example_server (Str tn)))"
    by simp
  note c = resources_part [OF resources]
  from contents_part [OF read] have d:
    "\<exists>p. Rows [[(js ''column_name'', Str (js ''id'')), (js ''data_type'', Str (js ''int''))]] =
        Rows (columns_rows example_server p)"
    by simp
  note e = table_rows_part [OF table_row]
  note f = column_rows_part [OF column_row]
  from listed a described b resources c read d table_row e column_row f sent_tables sent_columns
  show ?thesis by (intro conjI)
qed

section \<open>\<open>mysql_execute\<close> and statements that select\<close>

text \<open>
  Claim C6 says that \<open>mysql_execute\<close> fails on every statement whose leading keyword is
  \<open>SELECT\<close>. The dispatcher splits the statement at spaces only: when a tab follows the
  keyword, the statement goes to the modify executor and to the database.
\<close>

theorem select_tab_reaches_database:
  "spec_leading_keyword select_tab = SELECT \<and>
   callTool quiet_driver (mysql_execute select_tab None) [] =
     (Inr \<lparr>payload = ExecResult \<lparr>success = True, affectedRows = None, insertId = None,
                                   message = None\<rparr>,
            isError = False\<rparr>,
      [Acquire, Begin None, Query select_tab [] (Inr (Rows [])), Commit None,
       Log \<lparr>log_timestamp = 0, log_operation = js ''SELECT'' @ [9] @ js ''*'',
            log_sql = select_tab, log_params = [], log_duration = 0, log_success = True,
            log_error = None, log_affectedRows = None\<rparr>,
       Release])"
proof
  show "spec_leading_keyword select_tab = SELECT"
    by (simp add: spec_leading_keyword_def select_tab_def SELECT_def js_def is_whitespace_def
        canonicalize_def)
  have "js ''SELECT'' @ [9] @ js ''*'' \<noteq> SELECT"
    by (simp add: SELECT_def js_def)
  then show "callTool quiet_driver (mysql_execute select_tab None) [] =
     (Inr \<lparr>payload = ExecResult \<lparr>success = True, affectedRows = None, insertId = None,
                                   message = None\<rparr>,
            isError = False\<rparr>,
      [Acquire, Begin None, Query select_tab [] (Inr (Rows [])), Commit None,
       Log \<lparr>log_timestamp = 0, log_operation = js ''SELECT'' @ [9] @ js ''*'',
            log_sql = select_tab, log_params = [], log_duration = 0, log_success = True,
            log_error = None, log_affectedRows = None\<rparr>,
       Release])"
    by (simp add: callTool_def select_tab_type andThen_def quiet_modify select_tab_safe)
qed

text \<open>
  Claim C6, amended. When the first token of the trimmed statement, split at spaces and
  upper-cased, is \<open>SELECT\<close>, the dispatcher throws the usage error and nothing else
  happens: no connection is acquired and no command is sent. This is so whenever the
  keyword, in any letter case and after any leading white space, is followed by a space.
\<close>

theorem select_token_rejected:
  "(toUpperCase (first_token (trim sql)) = SELECT \<longrightarrow>
      callTool d (mysql_execute sql args_params) tr = (Inl (Error usage_message), tr)) \<and>
   (map canonicalize kw = SELECT \<and> (\<forall>c \<in> set ws. is_whitespace c) \<longrightarrow>
      callTool d (mysql_execute (ws @ kw @ 32 # rest) args_params) tr =
        (Inl (Error usage_message), tr))"
  by (simp add: callTool_def select_then_space)

theorem select_token_rejected_witness:
  "toUpperCase (first_token (trim (js ''SELECT * FROM t''))) = SELECT \<and>
   callTool quiet_driver (mysql_execute (js ''SELECT * FROM t'') None) [] =
     (Inl (Error usage_message), []) \<and>
   map canonicalize (js ''select'') = SELECT \<and> list_all is_whitespace (js ''  '') \<and>
   callTool quiet_driver (mysql_execute (js ''  '' @ js ''select'' @ 32 # js ''1'') None) [] =
     (Inl (Error usage_message), [])"
proof -
  have token: "toUpperCase (first_token (trim (js ''SELECT * FROM t''))) = SELECT"
    by (rule plain_select_type)
  have keyword: "map canonicalize (js ''select'') = SELECT"
    by (simp add: SELECT_def js_def canonicalize_def)
  have blanks: "\<forall>c \<in> set (js ''  ''). is_whitespace c"
    by (simp add: js_def is_whitespace_def)
  from select_token_rejected [of "js ''SELECT * FROM t''" quiet_driver None "[]"
      "js ''select''" "js ''  ''" "js ''1''"] token keyword blanks
  show ?thesis by (simp add: list_all_iff)
qed

section \<open>How \<open>mysql_execute\<close> classifies a statement\<close>

text \<open>
  Claim C10. The dispatcher rejects a \<open>mysql_execute\<close> statement exactly when the first
  token of the trimmed statement, split at spaces and upper-cased, equals \<open>SELECT\<close>, and
  hands it to the modify executor otherwise. Hence a statement whose keyword \<open>SELECT\<close> is
  followed by white space other than a space, with more text behind it, is handed to the
  modify executor. The operation of every log entry of the modify executor is that same
  upper-cased first token.
\<close>

theorem select_classification:
  "callTool d (mysql_execute sql args_params) tr =
     (if toUpperCase (first_token (trim sql)) = SELECT then (Inl (Error usage_message), tr)
      else andThen (executeModifyQuery d sql (case args_params of Some ps \<Rightarrow> ps | None \<Rightarrow> []))
             (\<lambda>result tr1. (Inr \<lparr>payload = ExecResult result, isError = \<not> success result\<rparr>, tr1))
             tr) \<and>
   (map canonicalize kw = SELECT \<and> is_whitespace w \<and> w \<noteq> 32 \<and>
    (\<exists>c \<in> set rest. \<not> is_whitespace c) \<longrightarrow>
      callTool d (mysql_execute (kw @ w # rest) args_params) tr =
        andThen (executeModifyQuery d (kw @ w # rest)
                  (case args_params of Some ps \<Rightarrow> ps | None \<Rightarrow> []))
          (\<lambda>result tr1. (Inr \<lparr>payload = ExecResult result, isError = \<not> success result\<rparr>, tr1))
          tr) \<and>
   (\<forall>entry. Log entry \<in> set (issued (executeModifyQuery d sql params) tr) \<longrightarrow>
      log_operation entry = toUpperCase (first_token (trim sql)))"
proof (intro conjI impI allI)
  show "callTool d (mysql_execute sql args_params) tr =
     (if toUpperCase (first_token (trim sql)) = SELECT then (Inl (Error usage_message), tr)
      else andThen (executeModifyQuery d sql (case args_params of Some ps \<Rightarrow> ps | None \<Rightarrow> []))
             (\<lambda>result tr1. (Inr \<lparr>payload = ExecResult result, isError = \<not> success result\<rparr>, tr1))
             tr)"
    by (simp add: callTool_def)
next
  assume "map canonicalize kw = SELECT \<and> is_whitespace w \<and> w \<noteq> 32 \<and>
    (\<exists>c \<in> set rest. \<not> is_whitespace c)"
  then have "toUpperCase (first_token (trim (kw @ w # rest))) \<noteq> SELECT"
    by (intro select_then_other_whitespace) simp_all
  then show "callTool d (mysql_execute (kw @ w # rest) args_params) tr =
        andThen (executeModifyQuery d (kw @ w # rest)
                  (case args_params of Some ps \<Rightarrow> ps | None \<Rightarrow> []))
          (\<lambda>result tr1. (Inr \<lparr>payload = ExecResult result, isError = \<not> success result\<rparr>, tr1))
          tr"
    by (simp add: callTool_def)
next
  fix entry
  assume "Log entry \<in> set (issued (executeModifyQuery d sql params) tr)"
  then show "log_operation entry = toUpperCase (first_token (trim sql))"
    by (rule modify_log_operation)
qed

theorem select_classification_witness:
  "map canonicalize (js ''select'') = SELECT \<and> is_whitespace 10 \<and> (10::nat) \<noteq> 32 \<and>
   js ''1'' = [49] \<and> \<not> is_whitespace 49 \<and>
   callTool quiet_driver (mysql_execute (js ''select'' @ 10 # js ''1'') None) [] =
     (Inr \<lparr>payload = ExecResult \<lparr>success = True, affectedRows = None, insertId = None,
                                   message = None\<rparr>,
            isError = False\<rparr>,
      [Acquire, Begin None, Query (js ''select'' @ 10 # js ''1'') [] (Inr (Rows [])), Commit None,
       Log \<lparr>log_timestamp = 0, log_operation = js ''SELECT'' @ [10] @ js ''1'',
            log_sql = js ''select'' @ 10 # js ''1'', log_params = [], log_duration = 0,
            log_success = True, log_error = None, log_affectedRows = None\<rparr>,
       Release]) \<and>
   Log \<lparr>log_timestamp = 0, log_operation = js ''SELECT'' @ [10] @ js ''1'',
        log_sql = js ''select'' @ 10 # js ''1'', log_params = [], log_duration = 0,
        log_success = True, log_error = None, log_affectedRows = None\<rparr>
     \<in> set (issued (executeModifyQuery quiet_driver (js ''select'' @ 10 # js ''1'') []) []) \<and>
   js ''SELECT'' @ [10] @ js ''1'' = toUpperCase (first_token (trim (js ''select'' @ 10 # js ''1'')))"
proof -
  have stmt: "js ''select'' @ 10 # js ''1'' = select_newline"
    by (simp add: select_newline_def)
  have keyword: "map canonicalize (js ''select'') = SELECT"
    by (simp add: SELECT_def js_def canonicalize_def)
  have newline: "is_whitespace 10" "(10::nat) \<noteq> 32" "\<exists>c \<in> set (js ''1''). \<not> is_whitespace c"
    by (simp_all add: is_whitespace_def js_def)
  have accepted: "safe (checkSQLSecurity (js ''select'' @ 10 # js ''1''))"
    by (simp add: stmt select_newline_safe)
  have run: "executeModifyQuery quiet_driver (js ''select'' @ 10 # js ''1'') [] [] =
     (Inr \<lparr>success = True, affectedRows = None, insertId = None, message = None\<rparr>,
      [Acquire, Begin None, Query (js ''select'' @ 10 # js ''1'') [] (Inr (Rows [])), Commit None,
       Log \<lparr>log_timestamp = 0, log_operation = js ''SELECT'' @ [10] @ js ''1'',
            log_sql = js ''select'' @ 10 # js ''1'', log_params = [], log_duration = 0,
            log_success = True, log_error = None, log_affectedRows = None\<rparr>,
       Release])"
    using quiet_modify [OF accepted] by (simp add: stmt select_newline_type)
  have logged: "Log \<lparr>log_timestamp = 0, log_operation = js ''SELECT'' @ [10] @ js ''1'',
        log_sql = js ''select'' @ 10 # js ''1'', log_params = [], log_duration = 0,
        log_success = True, log_error = None, log_affectedRows = None\<rparr>
     \<in> set (issued (executeModifyQuery quiet_driver (js ''select'' @ 10 # js ''1'') []) [])"
    by (simp add: issued_def run)
  note inst = select_classification [of quiet_driver "js ''select'' @ 10 # js ''1''" None "[]"
      "js ''select''" 10 "js ''1''" "[]"]
  from inst keyword newline have forwarded:
    "callTool quiet_driver (mysql_execute (js ''select'' @ 10 # js ''1'') None) [] =
       andThen (executeModifyQuery quiet_driver (js ''select'' @ 10 # js ''1'') [])
         (\<lambda>result tr1. (Inr \<lparr>payload = ExecResult result, isError = \<not> success result\<rparr>, tr1)) []"
    by (elim conjE) (drule mp, intro conjI, assumption+, simp)
  from inst logged have label:
    "js ''SELECT'' @ [10] @ js ''1'' = toUpperCase (first_token (trim (js ''select'' @ 10 # js ''1'')))"
    by (elim conjE) (drule spec, drule (1) mp, simp)
  from forwarded run have "callTool quiet_driver (mysql_execute (js ''select'' @ 10 # js ''1'') None) [] =
     (Inr \<lparr>payload = ExecResult \<lparr>success = True, affectedRows = None, insertId = None,
                                   message = None\<rparr>,
            isError = False\<rparr>,
      [Acquire, Begin None, Query (js ''select'' @ 10 # js ''1'') [] (Inr (Rows [])), Commit None,
       Log \<lparr>log_timestamp = 0, log_operation = js ''SELECT'' @ [10] @ js ''1'',
            log_sql = js ''select'' @ 10 # js ''1'', log_params = [], log_duration = 0,
            log_success = True, log_error = None, log_affectedRows = None\<rparr>,
       Release])"
    by (simp add: andThen_def)
  moreover have "js ''1'' = [49]" "\<not> is_whitespace 49"
    by (simp_all add: js_def is_whitespace_def)
  ultimately show ?thesis using keyword newline(1,2) logged label by (intro conjI)
qed

end
